theory Spec2Isabelle
  imports Main "HOL-Library.Word"
begin

section \<open>Common types\<close>

type_synonym uint64 = "64 word"
type_synonym uint32 = "32 word"

text \<open>A Go \<open>error\<close> value, identified with the message it prints with \<open>%v\<close>.\<close>

datatype error = Err string

fun errmsg :: "error \<Rightarrow> string" where
  "errmsg (Err m) = m"

section \<open>package stats: threads\<close>

text \<open>\<open>stats.ThreadData\<close>; the two byte slices are held as strings.\<close>

record ThreadData =
  ID :: uint32
  Name :: string
  Type :: string
  PID :: uint32
  CPUID :: uint32
  Core :: uint32
  CPUSocket :: uint32

section \<open>package stats: error counters\<close>

text \<open>\<open>telemetry.NodeCounter\<close> (and \<open>stats.Error\<close>, which is the same struct).\<close>

record NodeCounter =
  Value :: uint64
  Node :: string
  Name :: string

text \<open>The part of \<open>stats.VPP\<close> that the error operations read and write.\<close>

record VPP =
  lastErrorCounters :: "string \<rightharpoonup> uint64"

text \<open>Reading a Go map at a key yields the zero value when the key is absent.\<close>

definition mapget0 :: "(string \<rightharpoonup> uint64) \<Rightarrow> string \<Rightarrow> uint64" where
  "mapget0 m k = (case m k of None \<Rightarrow> 0 | Some v \<Rightarrow> v)"

text \<open>The loop of \<open>GetErrors\<close>: subtract, skip zero, append.\<close>

fun GetErrors_loop ::
  "(string \<rightharpoonup> uint64) \<Rightarrow> NodeCounter list \<Rightarrow> NodeCounter list \<Rightarrow> NodeCounter list" where
  "GetErrors_loop lastc [] result = result"
| "GetErrors_loop lastc (counter # rest) result =
     (let counter' = counter\<lparr>Value := Value counter - mapget0 lastc (Node counter @ Name counter)\<rparr>
      in if Value counter' = 0 then GetErrors_loop lastc rest result
         else GetErrors_loop lastc rest (result @ [counter']))"

text \<open>
  \<open>GetErrors\<close>. The second argument is what \<open>telemetryHandler.GetNodeCounters\<close> answers:
  an error, or the raw counters.
\<close>

definition GetErrors :: "VPP \<Rightarrow> error + NodeCounter list \<Rightarrow> error + NodeCounter list" where
  "GetErrors s fetched =
     (case fetched of
        Inl err \<Rightarrow> Inl err
      | Inr counters \<Rightarrow> Inr (GetErrors_loop (lastErrorCounters s) counters []))"

text \<open>The loop of \<open>updateLastErrors\<close>: counters that read zero are skipped.\<close>

fun updateLastErrors_loop ::
  "(string \<rightharpoonup> uint64) \<Rightarrow> NodeCounter list \<Rightarrow> (string \<rightharpoonup> uint64)" where
  "updateLastErrors_loop lastc [] = lastc"
| "updateLastErrors_loop lastc (counter # rest) =
     (if Value counter = 0 then updateLastErrors_loop lastc rest
      else updateLastErrors_loop (lastc(Node counter @ Name counter \<mapsto> Value counter)) rest)"

definition updateLastErrors :: "VPP \<Rightarrow> error + NodeCounter list \<Rightarrow> VPP" where
  "updateLastErrors s fetched =
     (case fetched of
        Inl err \<Rightarrow> s
      | Inr counters \<Rightarrow>
          s\<lparr>lastErrorCounters := updateLastErrors_loop (lastErrorCounters s) counters\<rparr>)"

text \<open>
  \<open>ClearErrorCounters\<close>: the snapshot, then the command \<open>clear errors\<close>, whose answer
  from \<open>govppHandler.RunCli\<close> is the third argument.
\<close>

definition ClearErrorCounters ::
  "VPP \<Rightarrow> error + NodeCounter list \<Rightarrow> error + string \<Rightarrow> VPP \<times> error option" where
  "ClearErrorCounters s fetched cli =
     (let s' = updateLastErrors s fetched
      in case cli of
           Inl err \<Rightarrow> (s', Some (Err (''request failed: '' @ errmsg err)))
         | Inr reply \<Rightarrow> (s', None))"

text \<open>What \<open>Connect\<close> and \<open>ConnectRemote\<close> leave in the baseline: an empty map.\<close>

definition connected :: VPP where
  "connected = \<lparr>lastErrorCounters = Map.empty\<rparr>"

section \<open>package stats: interfaces\<close>

text \<open>
  \<open>api.InterfaceCounterCombined\<close> and \<open>api.InterfaceCounters\<close> of the binary-API
  library, with the fields that the code reads.
\<close>

record InterfaceCounterCombined =
  Packets :: uint64
  Bytes :: uint64

record InterfaceCounters =
  InterfaceIndex :: uint32
  InterfaceName :: string
  Rx :: InterfaceCounterCombined
  Tx :: InterfaceCounterCombined
  RxErrors :: uint64
  TxErrors :: uint64
  RxUnicast :: InterfaceCounterCombined
  RxMulticast :: InterfaceCounterCombined
  RxBroadcast :: InterfaceCounterCombined
  TxUnicast :: InterfaceCounterCombined
  TxMulticast :: InterfaceCounterCombined
  TxBroadcast :: InterfaceCounterCombined
  Drops :: uint64
  Punts :: uint64
  IP4 :: uint64
  IP6 :: uint64
  RxNoBuf :: uint64
  RxMiss :: uint64

text \<open>\<open>stats.Interface\<close> embeds the counters and adds three fields.\<close>

record Interface = InterfaceCounters +
  IPAddrs :: "string list"
  State :: string
  MTU :: "uint32 list"

text \<open>
  What the code reads of an \<open>ifplugin.InterfaceDetails\<close>:
  \<open>Interface.GetEnabled()\<close>, \<open>Interface.GetIpAddresses()\<close> and \<open>Meta.MTU\<close>.
\<close>

record InterfaceDetails =
  Enabled :: bool
  IpAddresses :: "string list"
  Meta_MTU :: "uint32 list"

definition stateUp :: string where
  "stateUp = ''up''"

definition stateDown :: string where
  "stateDown = ''down''"

text \<open>The join loop of \<open>GetInterfaces\<close>, over \<open>ifaceStats.Interfaces\<close>.\<close>

fun GetInterfaces_loop ::
  "(uint32 \<rightharpoonup> InterfaceDetails) \<Rightarrow> InterfaceCounters list \<Rightarrow> Interface list \<Rightarrow> Interface list" where
  "GetInterfaces_loop ifaceDetails [] result = result"
| "GetInterfaces_loop ifaceDetails (iface # rest) result =
     (case ifaceDetails (InterfaceIndex iface) of
        None \<Rightarrow> GetInterfaces_loop ifaceDetails rest result
      | Some details \<Rightarrow>
          (let state = (if Enabled details then stateUp else stateDown)
           in GetInterfaces_loop ifaceDetails rest
                (result @ [InterfaceCounters.extend iface
                   (Interface.fields (IpAddresses details) state (Meta_MTU details))])))"

text \<open>
  \<open>GetInterfaces\<close> starts three goroutines and then reads \<open>errChan\<close>. Its runs are
  the interleavings of four kinds of step:
  \<^item> \<open>DetailsFetched\<close>: \<open>DumpInterfaces\<close> answers; the goroutine stores the details,
    sends the error value (nil on success) and signals the wait group;
  \<^item> \<open>StatsFetched\<close>: the same for \<open>GetInterfaceStats\<close>;
  \<^item> \<open>ChanClosed\<close>: the goroutine behind \<open>wg.Wait()\<close> closes the channel, which it
    can do once both fetching goroutines have signalled;
  \<^item> \<open>MainReceive\<close>: one round of \<open>for err := range errChan\<close> in the caller: it takes
    the next value and returns at once when it is a non-nil error; when the channel
    is closed and drained the loop ends, and the join loop produces the result.
  A step that cannot happen yet (nothing to receive, a goroutine that has already
  finished) leaves the state as it is.
\<close>

datatype gi_event = DetailsFetched | StatsFetched | ChanClosed | MainReceive

record gi_state =
  ifaceDetails :: "uint32 \<rightharpoonup> InterfaceDetails"
  ifaceStats :: "InterfaceCounters list"
  detailsRunning :: bool
  statsRunning :: bool
  errChan :: "error option list"
  received :: nat
  chanClosed :: bool
  returned :: "(error + Interface list) option"

text \<open>
  \<open>errChan\<close> holds every value sent so far, in the order sent, and \<open>received\<close> counts
  how many of them the caller has taken. The variables start as Go's zero values.
\<close>

definition gi_start :: gi_state where
  "gi_start = \<lparr>ifaceDetails = Map.empty, ifaceStats = [], detailsRunning = True,
     statsRunning = True, errChan = [], received = 0, chanClosed = False, returned = None\<rparr>"

fun errof :: "error + 'a \<Rightarrow> error option" where
  "errof (Inl err) = Some err"
| "errof (Inr v) = None"

fun gi_step ::
  "error + (uint32 \<rightharpoonup> InterfaceDetails) \<Rightarrow> error + InterfaceCounters list \<Rightarrow>
   gi_event \<Rightarrow> gi_state \<Rightarrow> gi_state" where
  "gi_step dump stats DetailsFetched st =
     (if detailsRunning st
      then st\<lparr>ifaceDetails := (case dump of Inl err \<Rightarrow> Map.empty | Inr d \<Rightarrow> d),
              errChan := errChan st @ [errof dump], detailsRunning := False\<rparr>
      else st)"
| "gi_step dump stats StatsFetched st =
     (if statsRunning st
      then st\<lparr>ifaceStats := (case stats of Inl err \<Rightarrow> [] | Inr s \<Rightarrow> s),
              errChan := errChan st @ [errof stats], statsRunning := False\<rparr>
      else st)"
| "gi_step dump stats ChanClosed st =
     (if \<not> detailsRunning st \<and> \<not> statsRunning st then st\<lparr>chanClosed := True\<rparr> else st)"
| "gi_step dump stats MainReceive st =
     (if returned st \<noteq> None then st
      else if received st < length (errChan st)
      then (case errChan st ! received st of
              Some err \<Rightarrow>
                st\<lparr>received := Suc (received st),
                   returned := Some (Inl (Err (''request failed: '' @ errmsg err)))\<rparr>
            | None \<Rightarrow> st\<lparr>received := Suc (received st)\<rparr>)
      else if chanClosed st
      then st\<lparr>returned := Some (Inr (GetInterfaces_loop (ifaceDetails st) (ifaceStats st) []))\<rparr>
      else st)"

fun gi_run ::
  "error + (uint32 \<rightharpoonup> InterfaceDetails) \<Rightarrow> error + InterfaceCounters list \<Rightarrow>
   gi_event list \<Rightarrow> gi_state \<Rightarrow> gi_state" where
  "gi_run dump stats [] st = st"
| "gi_run dump stats (ev # evs) st = gi_run dump stats evs (gi_step dump stats ev st)"

text \<open>
  \<open>GetInterfaces\<close> under a schedule: what the call has returned once the schedule
  has run from the start, \<open>None\<close> while it has not returned.
\<close>

definition GetInterfaces ::
  "error + (uint32 \<rightharpoonup> InterfaceDetails) \<Rightarrow> error + InterfaceCounters list \<Rightarrow>
   gi_event list \<Rightarrow> (error + Interface list) option" where
  "GetInterfaces dump stats sched = returned (gi_run dump stats sched gi_start)"

text \<open>A schedule in which every goroutine gets to finish and the caller reads to the end.\<close>

definition gi_complete :: "gi_event list" where
  "gi_complete = [DetailsFetched, StatsFetched, ChanClosed, MainReceive, MainReceive, MainReceive]"

text \<open>The first non-nil value of a sequence of error values, \<open>None\<close> when all are nil.\<close>

fun first_error :: "error option list \<Rightarrow> error option" where
  "first_error [] = None"
| "first_error (Some err # rest) = Some err"
| "first_error (None # rest) = first_error rest"

text \<open>
  What holds in every state that a run of \<open>GetInterfaces\<close> reaches: the caller has
  taken no more values than were sent; each finished goroutine has sent exactly one
  value, the error of its fetch, and stored what it fetched; the channel is closed
  only after both have finished; while the caller has not returned, every value it
  has taken is nil; a returned list is the join of the two fetched values, both
  fetched without error; a returned error wraps the first non-nil value sent.
\<close>

definition gi_inv ::
  "error + (uint32 \<rightharpoonup> InterfaceDetails) \<Rightarrow> error + InterfaceCounters list \<Rightarrow> gi_state \<Rightarrow> bool" where
  "gi_inv dump stats st \<longleftrightarrow>
     received st \<le> length (errChan st)
   \<and> length (errChan st) = (if detailsRunning st then 0 else 1) + (if statsRunning st then 0 else 1)
   \<and> (returned st = None \<longrightarrow> first_error (take (received st) (errChan st)) = None)
   \<and> (\<not> detailsRunning st \<longrightarrow>
        errof dump \<in> set (errChan st) \<and>
        ifaceDetails st = (case dump of Inl err \<Rightarrow> Map.empty | Inr d \<Rightarrow> d))
   \<and> (\<not> statsRunning st \<longrightarrow>
        errof stats \<in> set (errChan st) \<and>
        ifaceStats st = (case stats of Inl err \<Rightarrow> [] | Inr s \<Rightarrow> s))
   \<and> (chanClosed st \<longrightarrow> \<not> detailsRunning st \<and> \<not> statsRunning st)
   \<and> set (errChan st) \<subseteq> {errof dump, errof stats}
   \<and> (\<forall>r. returned st = Some (Inr r) \<longrightarrow>
        (\<exists>d s. dump = Inr d \<and> stats = Inr s \<and> r = GetInterfaces_loop d s []))
   \<and> (\<forall>e. returned st = Some (Inl e) \<longrightarrow>
        (\<exists>err. first_error (errChan st) = Some err \<and>
               e = Err (''request failed: '' @ errmsg err)))"

text \<open>Sample data: counters with the given index, name, received bytes and packets.\<close>

definition sample_counters :: "uint32 \<Rightarrow> string \<Rightarrow> uint64 \<Rightarrow> uint64 \<Rightarrow> InterfaceCounters" where
  "sample_counters idx name bytes packets =
     \<lparr>InterfaceIndex = idx, InterfaceName = name,
      Rx = \<lparr>Packets = packets, Bytes = bytes\<rparr>, Tx = \<lparr>Packets = 0, Bytes = 0\<rparr>,
      RxErrors = 0, TxErrors = 0,
      RxUnicast = \<lparr>Packets = 0, Bytes = 0\<rparr>, RxMulticast = \<lparr>Packets = 0, Bytes = 0\<rparr>,
      RxBroadcast = \<lparr>Packets = 0, Bytes = 0\<rparr>, TxUnicast = \<lparr>Packets = 0, Bytes = 0\<rparr>,
      TxMulticast = \<lparr>Packets = 0, Bytes = 0\<rparr>, TxBroadcast = \<lparr>Packets = 0, Bytes = 0\<rparr>,
      Drops = 0, Punts = 0, IP4 = 0, IP6 = 0, RxNoBuf = 0, RxMiss = 0\<rparr>"

definition sample_interface ::
  "uint32 \<Rightarrow> string \<Rightarrow> uint64 \<Rightarrow> uint64 \<Rightarrow> string list \<Rightarrow> string \<Rightarrow> Interface" where
  "sample_interface idx name bytes packets ips st =
     InterfaceCounters.extend (sample_counters idx name bytes packets)
       (Interface.fields ips st [1500, 0, 0, 0])"

section \<open>package stats: protocol versions\<close>

text \<open>
  A binary-API message, identified by its name. The version tables of the three
  handler packages are Go maps from a release string to a handler record, of which the
  code reads the field \<open>Msgs\<close>; the eight remaining message lists are the results of
  \<open>AllMessages()\<close> of the tunnel packages. The tables belong to the imported
  handler packages and are taken as a parameter.
\<close>

type_synonym message = string

record binapi =
  govppmux_Versions :: "string \<rightharpoonup> message list"
  ifplugin_Versions :: "string \<rightharpoonup> message list"
  telemetry_Versions :: "string \<rightharpoonup> message list"
  gpe1904 :: "message list"
  gre1904 :: "message list"
  gpe1908 :: "message list"
  gre1908 :: "message list"
  gpe2001_324 :: "message list"
  gre2001_324 :: "message list"
  gpe2001 :: "message list"
  gre2001 :: "message list"

text \<open>\<open>table[key].Msgs\<close>: a missing key gives the zero record, whose \<open>Msgs\<close> is nil.\<close>

definition Msgs_at :: "(string \<rightharpoonup> message list) \<Rightarrow> string \<Rightarrow> message list" where
  "Msgs_at table k = (case table k of None \<Rightarrow> [] | Some ms \<Rightarrow> ms)"

text \<open>
  The version loop of \<open>ConnectRemote\<close>. \<open>compatible msgs\<close> says whether
  \<open>apiChan.CheckCompatiblity(msgs...)\<close> returns nil. The loop ranges over a Go map,
  whose iteration order the language leaves open: the third argument is the order in
  which this run of the loop visits the keys. The result is the version at which the
  loop stopped (\<open>None\<close> when no version passed) and the messages registered with
  \<open>gob.Register\<close>, in order.
\<close>

fun ConnectRemote_versions ::
  "binapi \<Rightarrow> (message list \<Rightarrow> bool) \<Rightarrow> string list \<Rightarrow> message list \<Rightarrow>
   string option \<times> message list" where
  "ConnectRemote_versions B compatible [] registry = (None, registry)"
| "ConnectRemote_versions B compatible (ver # rest) registry =
     (if \<not> compatible (Msgs_at (govppmux_Versions B) ver)
      then ConnectRemote_versions B compatible rest registry
      else (Some ver,
            registry
            @ Msgs_at (govppmux_Versions B) ver
            @ Msgs_at (ifplugin_Versions B) (''vpp'' @ filter (\<lambda>c. c \<noteq> CHR ''.'') ver)
            @ Msgs_at (telemetry_Versions B) ver
            @ (if ver = ''19.04'' then gpe1904 B @ gre1904 B
               else if ver = ''19.08'' then gpe1908 B @ gre1908 B
               else if ver = ''20.01_324'' then gpe2001_324 B @ gre2001_324 B
               else if ver = ''20.01_379'' then gpe2001 B @ gre2001 B
               else [])))"

text \<open>An order in which \<open>range\<close> may visit the keys of the version table: each key once.\<close>

definition iteration_order :: "binapi \<Rightarrow> string list \<Rightarrow> bool" where
  "iteration_order B order \<longleftrightarrow> distinct order \<and> set order = dom (govppmux_Versions B)"

text \<open>Sample data: two releases with one message each, and a channel that accepts any set.\<close>

definition two_releases :: binapi where
  "two_releases =
     \<lparr>govppmux_Versions = [''19.04'' \<mapsto> [''show_version_1904''], ''19.08'' \<mapsto> [''show_version_1908'']],
      ifplugin_Versions = Map.empty, telemetry_Versions = Map.empty,
      gpe1904 = [], gre1904 = [], gpe1908 = [], gre1908 = [],
      gpe2001_324 = [], gre2001_324 = [], gpe2001 = [], gre2001 = []\<rparr>"

definition accepts_all :: "message list \<Rightarrow> bool" where
  "accepts_all msgs = True"

definition accepts_1908 :: "message list \<Rightarrow> bool" where
  "accepts_1908 msgs = (msgs = [''show_version_1908''])"

text \<open>The messages that the loop registers when it stops at a version.\<close>

definition version_messages :: "binapi \<Rightarrow> string \<Rightarrow> message list" where
  "version_messages B ver = snd (ConnectRemote_versions B (\<lambda>msgs. True) [ver] [])"

section \<open>package client\<close>

text \<open>Index of each tab.\<close>

definition Interfaces :: int where
  "Interfaces = 0"

definition Nodes :: int where
  "Nodes = 1"

definition Errors :: int where
  "Errors = 2"

definition Memory :: int where
  "Memory = 3"

definition Threads :: int where
  "Threads = 4"

definition RowsPerIface :: nat where
  "RowsPerIface = 11"

definition RowsPerMemory :: nat where
  "RowsPerMemory = 8"

type_synonym TableRows = "string list list"

text \<open>An element of \<open>App.sortBy\<close>, and the payload of a sort event.\<close>

record sortSpec =
  asc :: bool
  field :: int

record SortMetadata =
  CurrTab :: int
  CurrRow :: int

text \<open>
  What the code below uses from other files: the constant \<open>xtui.EmptyCell\<close>,
  the three sort routines of package client (they reorder a slice in place; here they
  return the reordered slice), and the line that \<open>formatNodes\<close> prints for a node,
  which contains floating-point fields. The type of a node is left open.
\<close>

record 'n extern =
  EmptyCell :: string
  sortInterfaceStats :: "Interface list \<Rightarrow> int \<Rightarrow> bool \<Rightarrow> Interface list"
  sortNodeStats :: "'n list \<Rightarrow> int \<Rightarrow> bool \<Rightarrow> 'n list"
  sortErrorStats :: "NodeCounter list \<Rightarrow> int \<Rightarrow> bool \<Rightarrow> NodeCounter list"
  node_line :: "'n \<Rightarrow> string"

text \<open>
  Modelled from the spec: package \<open>gui\<close> (the terminal window and its table views) is
  not among the files at hand. The display boundary "accepts a rectangular matrix of
  text cells per tab per refresh": a window is taken as the matrix that each tab's view
  was last given, and \<open>ViewAtTab(tab).Update(rows)\<close> as giving the view of that tab a
  new matrix.
\<close>

type_synonym TermWindow = "TableRows list"

definition ViewAtTab_Update :: "int \<Rightarrow> TableRows \<Rightarrow> TermWindow \<Rightarrow> TermWindow" where
  "ViewAtTab_Update tab rows window = window[nat tab := rows]"

text \<open>
  The state of the application: the fields of \<open>App\<close> that the ticker and the
  callbacks use, and \<open>logged\<close>, the messages given to \<open>log.Printf\<close>.
\<close>

record App =
  vpp :: VPP
  IfCache :: "Interface list"
  sortBy :: "sortSpec list"
  currTab :: int
  gui :: TermWindow
  logged :: "string list"

text \<open>
  What the engine answers during one tick or one clear action: the outcome of
  \<open>vpp.GetInterfaces\<close>, of \<open>vpp.GetNodes\<close>, of the node-counter query inside
  \<open>vpp.GetErrors\<close> and \<open>updateLastErrors\<close>, of \<open>vpp.Memory\<close>, of \<open>vpp.Threads\<close>
  and of the command sent with \<open>RunCli\<close>.
\<close>

record 'n answers =
  GetInterfaces_result :: "error + Interface list"
  GetNodes_result :: "error + 'n list"
  GetNodeCounters_result :: "error + NodeCounter list"
  Memory_result :: "error + string list"
  Threads_result :: "error + ThreadData list"
  RunCli_result :: "error + string"

text \<open>\<open>NewApp\<close> followed by \<open>Init\<close>; the constant \<open>NoColumn\<close> is a parameter.\<close>

definition NewApp :: "int \<Rightarrow> App" where
  "NewApp NoColumn =
     \<lparr>vpp = connected, IfCache = [], sortBy = replicate 5 \<lparr>asc = True, field = NoColumn\<rparr>,
      currTab = 0, gui = replicate 5 [], logged = []\<rparr>"

subsection \<open>Printing and splitting\<close>

definition digit :: "nat \<Rightarrow> char" where
  "digit d = ''0123456789'' ! d"

fun decimal :: "nat \<Rightarrow> string" where
  "decimal n = (if n < 10 then [digit n] else decimal (n div 10) @ [digit (n mod 10)])"

text \<open>\<open>fmt.Sprint\<close> and \<open>%d\<close> on an unsigned integer.\<close>

definition Sprint :: "'a::len word \<Rightarrow> string" where
  "Sprint w = decimal (unat w)"

text \<open>\<open>strings.Split\<close> with a separator of one character.\<close>

fun split_on :: "char \<Rightarrow> string \<Rightarrow> string list" where
  "split_on sep [] = [[]]"
| "split_on sep (c # cs) =
     (if c = sep then [] # split_on sep cs
      else (case split_on sep cs of [] \<Rightarrow> [[c]] | w # ws \<Rightarrow> (c # w) # ws))"

subsection \<open>formatInterfaces\<close>

text \<open>The first loop: the index of each cached interface under its name, later ones winning.\<close>

fun nameToIdx_loop :: "Interface list \<Rightarrow> nat \<Rightarrow> (string \<rightharpoonup> nat) \<Rightarrow> (string \<rightharpoonup> nat)" where
  "nameToIdx_loop [] i nameToIdx = nameToIdx"
| "nameToIdx_loop (iface # rest) i nameToIdx =
     nameToIdx_loop rest (Suc i) (nameToIdx(InterfaceName iface \<mapsto> i))"

text \<open>The four rates of an interface, in the order \<open>rxbbs\<close>, \<open>txbbs\<close>, \<open>rxpps\<close>, \<open>txpps\<close>.\<close>

definition iface_rates ::
  "Interface list \<Rightarrow> (string \<rightharpoonup> nat) \<Rightarrow> Interface \<Rightarrow> uint64 \<times> uint64 \<times> uint64 \<times> uint64" where
  "iface_rates cache nameToIdx iface =
     (case nameToIdx (InterfaceName iface) of
        None \<Rightarrow> (0, 0, 0, 0)
      | Some idx \<Rightarrow>
          (Bytes (Rx iface) - Bytes (Rx (cache ! idx)),
           Bytes (Tx iface) - Bytes (Tx (cache ! idx)),
           Packets (Rx iface) - Packets (Rx (cache ! idx)),
           Packets (Tx iface) - Packets (Tx (cache ! idx))))"

text \<open>
  The last loop of an interface's block: the addresses, from the last one backwards,
  go into the first cell of the rows after the first, as far as there are rows.
\<close>

fun put_addresses :: "string list \<Rightarrow> TableRows \<Rightarrow> TableRows" where
  "put_addresses (addr # addrs) (row # rows) =
     (row[0 := hd (split_on CHR ''/'' addr)]) # put_addresses addrs rows"
| "put_addresses addrs rows = rows"

text \<open>
  The \<open>RowsPerIface\<close> rows of one interface: row \<open>k\<close> of this block is row
  \<open>RowsPerIface*i + k\<close> of the table when the interface is the \<open>i\<close>-th.
\<close>

definition iface_rows ::
  "string \<Rightarrow> Interface list \<Rightarrow> (string \<rightharpoonup> nat) \<Rightarrow> Interface \<Rightarrow> TableRows" where
  "iface_rows E cache nameToIdx iface =
     (case iface_rates cache nameToIdx iface of (rxbbs, txbbs, rxpps, txpps) \<Rightarrow>
        [InterfaceName iface, Sprint (InterfaceIndex iface), State iface,
         Sprint (MTU iface ! 0) @ ''/'' @ Sprint (MTU iface ! 1) @ ''/'' @
           Sprint (MTU iface ! 2) @ ''/'' @ Sprint (MTU iface ! 3),
         ''Packets'', Sprint (Packets (Rx iface)), ''Packets'', Sprint (Packets (Tx iface)),
         Sprint (Drops iface), Sprint (Punts iface), Sprint (IP4 iface), Sprint (IP6 iface)]
        # put_addresses (rev (IPAddrs iface))
           [[E, E, E, E, ''Packets/s'', Sprint rxpps, ''Packets/s'', Sprint txpps, E, E, E, E],
            [E, E, E, E, ''Bytes'', Sprint (Bytes (Rx iface)), ''Bytes'', Sprint (Bytes (Tx iface)),
             E, E, E, E],
            [E, E, E, E, ''Bytes/s'', Sprint rxbbs, ''Bytes/s'', Sprint txbbs, E, E, E, E],
            [E, E, E, E, ''Errors'', Sprint (RxErrors iface), ''Errors'', Sprint (TxErrors iface),
             E, E, E, E],
            [E, E, E, E, ''Unicast'',
             Sprint (Packets (RxUnicast iface)) @ ''/'' @ Sprint (Bytes (RxUnicast iface)),
             ''UnicastMiss'',
             Sprint (Packets (TxUnicast iface)) @ ''/'' @ Sprint (Bytes (TxUnicast iface)),
             E, E, E, E],
            [E, E, E, E, ''Multicast'',
             Sprint (Packets (RxMulticast iface)) @ ''/'' @ Sprint (Bytes (RxMulticast iface)),
             ''Multicast'',
             Sprint (Packets (TxMulticast iface)) @ ''/'' @ Sprint (Bytes (TxMulticast iface)),
             E, E, E, E],
            [E, E, E, E, ''Broadcast'',
             Sprint (Packets (RxBroadcast iface)) @ ''/'' @ Sprint (Bytes (RxBroadcast iface)),
             ''Broadcast'',
             Sprint (Packets (TxBroadcast iface)) @ ''/'' @ Sprint (Bytes (TxBroadcast iface)),
             E, E, E, E],
            [E, E, E, E, ''NoBuf'', Sprint (RxNoBuf iface), E, E, E, E, E, E],
            [E, E, E, E, ''Miss'', Sprint (RxMiss iface), E, E, E, E, E, E],
            [E, E, E, E, E, E, E, E, E, E, E, E]])"

text \<open>
  The main loop. Reading \<open>iface.MTU[0]\<close> to \<open>iface.MTU[3]\<close> panics when the slice has
  fewer than four elements: the result is then \<open>None\<close>.
\<close>

fun formatInterfaces_loop ::
  "string \<Rightarrow> Interface list \<Rightarrow> (string \<rightharpoonup> nat) \<Rightarrow> Interface list \<Rightarrow> TableRows \<Rightarrow>
   TableRows option" where
  "formatInterfaces_loop E cache nameToIdx [] rows = Some rows"
| "formatInterfaces_loop E cache nameToIdx (iface # rest) rows =
     (if length (MTU iface) < 4 then None
      else formatInterfaces_loop E cache nameToIdx rest
             (rows @ iface_rows E cache nameToIdx iface))"

text \<open>
  \<open>formatInterfaces\<close>, from \<open>app.IfCache\<close> and the interfaces to the rows and the new
  value of \<open>app.IfCache\<close>.
\<close>

definition formatInterfaces ::
  "string \<Rightarrow> Interface list \<Rightarrow> Interface list \<Rightarrow> (TableRows \<times> Interface list) option" where
  "formatInterfaces E cache ifaces =
     (case formatInterfaces_loop E cache (nameToIdx_loop cache 0 Map.empty) ifaces [] of
        None \<Rightarrow> None
      | Some rows \<Rightarrow> Some (rows, ifaces))"

subsection \<open>The other formatters\<close>

definition formatNodes :: "('n \<Rightarrow> string) \<Rightarrow> 'n list \<Rightarrow> TableRows" where
  "formatNodes line nodes = map (\<lambda>node. split_on CHR '' '' (line node)) nodes"

definition formatErrors :: "NodeCounter list \<Rightarrow> TableRows" where
  "formatErrors errors =
     (let rows = map (\<lambda>errorC. split_on CHR '';''
                   (Sprint (Value errorC) @ '';'' @ Node errorC @ '';'' @ Name errorC)) errors
      in if length rows = 0 then rows @ [['''', '''', '''']] else rows)"

definition formatMemstats :: "string \<Rightarrow> string list \<Rightarrow> TableRows" where
  "formatMemstats E memstats =
     concat (map (\<lambda>i. [[memstats ! (7 * i), memstats ! (7 * i + 1)],
                       [E, memstats ! (7 * i + 2)],
                       [E, memstats ! (7 * i + 3)],
                       [E, memstats ! (7 * i + 4)],
                       [E, memstats ! (7 * i + 5)],
                       [E, memstats ! (7 * i + 6)],
                       [E, E],
                       []])
               [0 ..< length memstats div 7])"

definition formatThreads :: "ThreadData list \<Rightarrow> TableRows" where
  "formatThreads threads =
     map (\<lambda>thread. split_on CHR '' ''
            (Sprint (ID thread) @ '' '' @ ThreadData.Name thread @ '' '' @ Type thread @ '' '' @
             Sprint (PID thread) @ '' '' @ Sprint (CPUID thread) @ '' '' @
             Sprint (Core thread) @ '' '' @ Sprint (CPUSocket thread))) threads"

subsection \<open>The ticker and the callbacks of Run\<close>

text \<open>A fetch that fails returns nil with its error; the error is logged.\<close>

fun fetched :: "error + 'a list \<Rightarrow> 'a list" where
  "fetched (Inl err) = []"
| "fetched (Inr v) = v"

fun log_failure :: "string \<Rightarrow> error option \<Rightarrow> string list \<Rightarrow> string list" where
  "log_failure what None lines = lines"
| "log_failure what (Some err) lines =
     lines @ [''error occured while '' @ what @ '': '' @ errmsg err @ [CHR 0x0A]]"

text \<open>
  One round of the ticker, under \<open>vppLock\<close>: fetch for the current tab, sort, format
  and update the tab's view. \<open>None\<close> when the round panics.
\<close>

definition tick :: "'n extern \<Rightarrow> 'n answers \<Rightarrow> App \<Rightarrow> App option" where
  "tick X A app =
     (if currTab app = Interfaces then
        (let ifaces = fetched (GetInterfaces_result A);
             lines = log_failure ''polling interface stats'' (errof (GetInterfaces_result A))
                       (logged app);
             s = sortBy app ! nat Interfaces;
             ifaces = sortInterfaceStats X ifaces (field s) (asc s)
         in case formatInterfaces (EmptyCell X) (IfCache app) ifaces of
              None \<Rightarrow> None
            | Some (rows, cache) \<Rightarrow>
                Some (app\<lparr>IfCache := cache, gui := ViewAtTab_Update Interfaces rows (gui app),
                         logged := lines\<rparr>))
      else if currTab app = Nodes then
        (let nodes = fetched (GetNodes_result A);
             lines = log_failure ''polling nodes stats'' (errof (GetNodes_result A)) (logged app);
             s = sortBy app ! nat Nodes;
             nodes = sortNodeStats X nodes (field s) (asc s)
         in Some (app\<lparr>gui := ViewAtTab_Update Nodes (formatNodes (node_line X) nodes) (gui app),
                      logged := lines\<rparr>))
      else if currTab app = Errors then
        (let result = GetErrors (vpp app) (GetNodeCounters_result A);
             errors = fetched result;
             lines = log_failure ''polling errors stats'' (errof result) (logged app);
             s = sortBy app ! nat Errors;
             errors = sortErrorStats X errors (field s) (asc s)
         in Some (app\<lparr>gui := ViewAtTab_Update Errors (formatErrors errors) (gui app), logged := lines\<rparr>))
      else if currTab app = Memory then
        (let memstats = fetched (Memory_result A);
             lines = log_failure ''polling memory stats'' (errof (Memory_result A)) (logged app)
         in Some (app\<lparr>gui := ViewAtTab_Update Memory (formatMemstats (EmptyCell X) memstats) (gui app),
                      logged := lines\<rparr>))
      else if currTab app = Threads then
        (let threads = fetched (Threads_result A);
             lines = log_failure ''polling threads stats'' (errof (Threads_result A)) (logged app)
         in Some (app\<lparr>gui := ViewAtTab_Update Threads (formatThreads threads) (gui app), logged := lines\<rparr>))
      else Some app)"

text \<open>\<open>ClearIfaceCounters\<close> and \<open>ClearRuntimeCounters\<close>: the error of the command, wrapped.\<close>

fun request_failed :: "error + string \<Rightarrow> error option" where
  "request_failed (Inl err) = Some (Err (''request failed: '' @ errmsg err))"
| "request_failed (Inr reply) = None"

text \<open>The clear callback for a tab, under \<open>vppLock\<close>.\<close>

definition onClear :: "int \<Rightarrow> 'n answers \<Rightarrow> App \<Rightarrow> App" where
  "onClear tab A app =
     (if tab = Interfaces then
        app\<lparr>IfCache := [],
            logged := log_failure ''clearing interface stats'' (request_failed (RunCli_result A))
                        (logged app)\<rparr>
      else if tab = Nodes then
        app\<lparr>logged := log_failure ''clearing node stats'' (request_failed (RunCli_result A))
                        (logged app)\<rparr>
      else if tab = Errors then
        (case ClearErrorCounters (vpp app) (GetNodeCounters_result A) (RunCli_result A) of
           (s, err) \<Rightarrow>
             app\<lparr>vpp := s, logged := log_failure ''clearing error stats'' err (logged app)\<rparr>)
      else app)"

text \<open>The sort callback, under \<open>sortLock\<close>.\<close>

definition onSort :: "SortMetadata \<Rightarrow> App \<Rightarrow> App" where
  "onSort payload app =
     (if CurrTab payload = Interfaces then
        app\<lparr>sortBy := (sortBy app)[nat Interfaces :=
               \<lparr>asc = \<not> asc (sortBy app ! nat Interfaces), field = CurrRow payload\<rparr>]\<rparr>
      else if CurrTab payload = Nodes then
        app\<lparr>sortBy := (sortBy app)[nat Nodes :=
               \<lparr>asc = \<not> asc (sortBy app ! nat Nodes), field = CurrRow payload\<rparr>]\<rparr>
      else if CurrTab payload = Errors then
        app\<lparr>sortBy := (sortBy app)[nat Errors :=
               \<lparr>asc = \<not> asc (sortBy app ! nat Errors), field = CurrRow payload\<rparr>]\<rparr>
      else app)"

text \<open>The tab-switch callback, under \<open>tabLock\<close>.\<close>

definition onTabSwitch :: "int \<Rightarrow> App \<Rightarrow> App" where
  "onTabSwitch tab app = app\<lparr>currTab := tab\<rparr>"

text \<open>
  Sample data: sort routines that leave the order as it is, an empty cell shown as a
  dash, a node printed by its name.
\<close>

definition keep_order :: "'a list \<Rightarrow> int \<Rightarrow> bool \<Rightarrow> 'a list" where
  "keep_order xs column ascending = xs"

definition sample_extern :: "string extern" where
  "sample_extern = \<lparr>EmptyCell = ''-'', sortInterfaceStats = keep_order,
     sortNodeStats = keep_order, sortErrorStats = keep_order, node_line = id\<rparr>"

definition failing :: "string answers" where
  "failing = \<lparr>GetInterfaces_result = Inl (Err ''timeout''), GetNodes_result = Inl (Err ''timeout''),
     GetNodeCounters_result = Inl (Err ''timeout''), Memory_result = Inl (Err ''timeout''),
     Threads_result = Inl (Err ''timeout''), RunCli_result = Inl (Err ''timeout'')\<rparr>"

definition counting :: "NodeCounter list \<Rightarrow> string answers" where
  "counting counters = \<lparr>GetInterfaces_result = Inr [], GetNodes_result = Inr [],
     GetNodeCounters_result = Inr counters, Memory_result = Inr [], Threads_result = Inr [],
     RunCli_result = Inr []\<rparr>"

definition answering :: "Interface list \<Rightarrow> string answers" where
  "answering ifaces = \<lparr>GetInterfaces_result = Inr ifaces, GetNodes_result = Inr [],
     GetNodeCounters_result = Inr [], Memory_result = Inr [], Threads_result = Inr [],
     RunCli_result = Inr []\<rparr>"

subsection \<open>Runs of the application\<close>

text \<open>The rows that the view of a tab was last updated with.\<close>

definition shown :: "nat \<Rightarrow> App \<Rightarrow> TableRows" where
  "shown t app = gui app ! t"

text \<open>
  The ticker and the clear callback exclude each other with \<open>vppLock\<close>, and the sort and
  tab-switch callbacks change one locked field each, so a run of the application is a
  sequence of whole actions. A run ends with \<open>None\<close> when a tick panics.
\<close>

datatype 'n action = Tick "'n answers" | Clear int "'n answers" | Sort SortMetadata | TabSwitch int

fun perform :: "'n extern \<Rightarrow> 'n action \<Rightarrow> App \<Rightarrow> App option" where
  "perform X (Tick A) app = tick X A app"
| "perform X (Clear tab A) app = Some (onClear tab A app)"
| "perform X (Sort payload) app = Some (onSort payload app)"
| "perform X (TabSwitch tab) app = Some (onTabSwitch tab app)"

fun perform_all :: "'n extern \<Rightarrow> 'n action list \<Rightarrow> App \<Rightarrow> App option" where
  "perform_all X [] app = Some app"
| "perform_all X (a # acts) app =
     (case perform X a app of None \<Rightarrow> None | Some app' \<Rightarrow> perform_all X acts app')"

text \<open>An action polls the interfaces when it is a tick and the interfaces tab is selected.\<close>

fun polls_interfaces :: "'n action \<Rightarrow> App \<Rightarrow> bool" where
  "polls_interfaces (Tick A) app = (currTab app = Interfaces)"
| "polls_interfaces a app = False"

text \<open>A run without an interface poll.\<close>

fun no_interface_poll :: "'n extern \<Rightarrow> 'n action list \<Rightarrow> App \<Rightarrow> bool" where
  "no_interface_poll X [] app = True"
| "no_interface_poll X (a # acts) app =
     (\<not> polls_interfaces a app \<and>
      (case perform X a app of None \<Rightarrow> True | Some app' \<Rightarrow> no_interface_poll X acts app'))"

text \<open>Sample data: the interface \<open>eth0\<close> with 1000 received bytes in 10 packets.\<close>

definition eth0 :: Interface where
  "eth0 = sample_interface 1 ''eth0'' 1000 10 [''10.0.0.1/24''] ''up''"

section \<open>Error deltas\<close>

lemma GetErrors_loop_eq:
  "GetErrors_loop lastc cs acc =
     acc @ filter (\<lambda>c. Value c \<noteq> 0)
             (map (\<lambda>c. c\<lparr>Value := Value c - mapget0 lastc (Node c @ Name c)\<rparr>) cs)"
  by (induction cs arbitrary: acc) (simp_all add: Let_def)

text \<open>
  C1. \<open>GetErrors\<close> reports, for each raw counter in turn, the counter with its value
  lowered by the baseline stored under the counter's key (the node name followed by
  the counter name; zero when the key is not in the baseline, subtraction on 64-bit
  unsigned values), and leaves out the counters whose lowered value is zero. Every
  reported entry is such a non-zero delta of a raw counter, every raw counter with a
  non-zero delta is reported, and with the baseline \<open>node1 err-a \<mapsto> 5\<close> and the raw
  counters \<open>node1 err-a = 5\<close>, \<open>node1 err-b = 2\<close> the result is exactly
  \<open>node1 err-b = 2\<close>.
\<close>

theorem GetErrors_delta:
  "GetErrors s (Inr cs) =
     Inr (filter (\<lambda>e. Value e \<noteq> 0)
            (map (\<lambda>c. c\<lparr>Value := Value c - mapget0 (lastErrorCounters s) (Node c @ Name c)\<rparr>) cs))
   \<and> (\<forall>r. GetErrors s (Inr cs) = Inr r \<longrightarrow>
         (\<forall>e \<in> set r. Value e \<noteq> 0 \<and>
            (\<exists>c \<in> set cs. Node e = Node c \<and> Name e = Name c \<and>
               Value e = Value c - mapget0 (lastErrorCounters s) (Node c @ Name c)))
       \<and> (\<forall>c \<in> set cs. Value c - mapget0 (lastErrorCounters s) (Node c @ Name c) \<noteq> 0 \<longrightarrow>
            c\<lparr>Value := Value c - mapget0 (lastErrorCounters s) (Node c @ Name c)\<rparr> \<in> set r))
   \<and> GetErrors \<lparr>lastErrorCounters = [''node1err-a'' \<mapsto> 5]\<rparr>
        (Inr [\<lparr>Value = 5, Node = ''node1'', Name = ''err-a''\<rparr>,
              \<lparr>Value = 2, Node = ''node1'', Name = ''err-b''\<rparr>])
       = Inr [\<lparr>Value = 2, Node = ''node1'', Name = ''err-b''\<rparr>]"
proof (intro conjI allI impI)
  show eq: "GetErrors s (Inr cs) =
     Inr (filter (\<lambda>e. Value e \<noteq> 0)
            (map (\<lambda>c. c\<lparr>Value := Value c - mapget0 (lastErrorCounters s) (Node c @ Name c)\<rparr>) cs))"
    by (simp add: GetErrors_def GetErrors_loop_eq)
  fix r assume r: "GetErrors s (Inr cs) = Inr r"
  with eq have r_def: "r = filter (\<lambda>e. Value e \<noteq> 0)
            (map (\<lambda>c. c\<lparr>Value := Value c - mapget0 (lastErrorCounters s) (Node c @ Name c)\<rparr>) cs)"
    by simp
  show "\<forall>e \<in> set r. Value e \<noteq> 0 \<and>
            (\<exists>c \<in> set cs. Node e = Node c \<and> Name e = Name c \<and>
               Value e = Value c - mapget0 (lastErrorCounters s) (Node c @ Name c))"
    unfolding r_def by auto
  show "\<forall>c \<in> set cs. Value c - mapget0 (lastErrorCounters s) (Node c @ Name c) \<noteq> 0 \<longrightarrow>
            c\<lparr>Value := Value c - mapget0 (lastErrorCounters s) (Node c @ Name c)\<rparr> \<in> set r"
    unfolding r_def by auto
next
  show "GetErrors \<lparr>lastErrorCounters = [''node1err-a'' \<mapsto> 5]\<rparr>
        (Inr [\<lparr>Value = 5, Node = ''node1'', Name = ''err-a''\<rparr>,
              \<lparr>Value = 2, Node = ''node1'', Name = ''err-b''\<rparr>])
       = Inr [\<lparr>Value = 2, Node = ''node1'', Name = ''err-b''\<rparr>]"
    by (simp add: GetErrors_def mapget0_def)
qed

theorem GetErrors_delta_witness:
  "GetErrors \<lparr>lastErrorCounters = [''node1err-a'' \<mapsto> 5]\<rparr>
        (Inr [\<lparr>Value = 5, Node = ''node1'', Name = ''err-a''\<rparr>,
              \<lparr>Value = 9, Node = ''node1'', Name = ''err-b''\<rparr>,
              \<lparr>Value = 7, Node = ''node1'', Name = ''err-a''\<rparr>])
     = Inr [\<lparr>Value = 9, Node = ''node1'', Name = ''err-b''\<rparr>,
            \<lparr>Value = 2, Node = ''node1'', Name = ''err-a''\<rparr>]
   \<and> \<lparr>Value = 2, Node = ''node1'', Name = ''err-a''\<rparr>
       \<in> set [\<lparr>Value = 9, Node = ''node1'', Name = ''err-b''\<rparr>,
                \<lparr>Value = 2, Node = ''node1'', Name = ''err-a''\<rparr>]
   \<and> (7::uint64) - mapget0 [''node1err-a'' \<mapsto> 5] ''node1err-a'' \<noteq> 0"
  using GetErrors_delta [of "\<lparr>lastErrorCounters = [''node1err-a'' \<mapsto> 5]\<rparr>"
      "[\<lparr>Value = 5, Node = ''node1'', Name = ''err-a''\<rparr>,
        \<lparr>Value = 9, Node = ''node1'', Name = ''err-b''\<rparr>,
        \<lparr>Value = 7, Node = ''node1'', Name = ''err-a''\<rparr>]"]
  by (simp add: mapget0_def)

section \<open>Clearing the error counters\<close>

lemma updateLastErrors_loop_other:
  "k \<notin> (\<lambda>c. Node c @ Name c) ` set cs \<Longrightarrow> updateLastErrors_loop m cs k = m k"
  by (induction cs arbitrary: m) auto

lemma updateLastErrors_loop_distinct:
  "distinct (map (\<lambda>c. Node c @ Name c) cs) \<Longrightarrow> c \<in> set cs \<Longrightarrow>
   updateLastErrors_loop m cs (Node c @ Name c) =
     (if Value c = 0 then m (Node c @ Name c) else Some (Value c))"
proof (induction cs arbitrary: m)
  case Nil
  then show ?case by simp
next
  case (Cons d ds)
  show ?case
  proof (cases "c = d")
    case True
    from Cons.prems have "Node d @ Name d \<notin> (\<lambda>c. Node c @ Name c) ` set ds"
      by auto
    then show ?thesis
      using True by (simp add: updateLastErrors_loop_other)
  next
    case False
    with Cons.prems have mem: "c \<in> set ds" and dist: "distinct (map (\<lambda>c. Node c @ Name c) ds)"
      and ne: "Node c @ Name c \<noteq> Node d @ Name d"
      by (auto simp: image_iff)
    show ?thesis
      using Cons.IH [OF dist mem] ne by simp
  qed
qed

text \<open>
  When the snapshot succeeds, the raw counters have pairwise different keys, and no
  counter that reads zero has a non-zero value left in the baseline from an earlier
  snapshot, the next \<open>GetErrors\<close> on the same raw counters is empty.
\<close>

lemma ClearErrorCounters_then_GetErrors_empty:
  assumes "distinct (map (\<lambda>c. Node c @ Name c) cs)"
    and "\<forall>c \<in> set cs. Value c = 0 \<longrightarrow> mapget0 (lastErrorCounters s) (Node c @ Name c) = 0"
  shows "GetErrors (fst (ClearErrorCounters s (Inr cs) cli)) (Inr cs) = Inr []"
proof -
  let ?m = "updateLastErrors_loop (lastErrorCounters s) cs"
  have "\<forall>c \<in> set cs. Value c - mapget0 ?m (Node c @ Name c) = 0"
    using assms by (auto simp: mapget0_def updateLastErrors_loop_distinct)
  then have "filter (\<lambda>e. Value e \<noteq> 0)
            (map (\<lambda>c. c\<lparr>Value := Value c - mapget0 ?m (Node c @ Name c)\<rparr>) cs) = []"
    by (auto simp: filter_empty_conv)
  then show ?thesis
    by (cases cli) (simp_all add: ClearErrorCounters_def updateLastErrors_def GetErrors_def
        GetErrors_loop_eq)
qed

text \<open>
  C2. After \<open>ClearErrorCounters\<close>, the next \<open>GetErrors\<close> on the same raw counters
  should be empty. The snapshot skips counters that read zero and never removes a
  key, so a value stored by an earlier clear stays in the baseline once the engine
  has zeroed the counter. From a fresh connection: the counter \<open>node1 err-a\<close> reads 5
  and the user clears (baseline 5); the engine zeroes it; the user clears again while
  it reads 0, and the next \<open>GetErrors\<close>, on the same raw value 0, reports the counter
  with the value \<open>0 - 5\<close> on 64 bits instead of nothing.
\<close>

theorem ClearErrorCounters_stale_baseline:
  "GetErrors
     (fst (ClearErrorCounters
        (fst (ClearErrorCounters connected
           (Inr [\<lparr>Value = 5, Node = ''node1'', Name = ''err-a''\<rparr>]) (Inr [])))
        (Inr [\<lparr>Value = 0, Node = ''node1'', Name = ''err-a''\<rparr>]) (Inr [])))
     (Inr [\<lparr>Value = 0, Node = ''node1'', Name = ''err-a''\<rparr>])
   = Inr [\<lparr>Value = 18446744073709551611, Node = ''node1'', Name = ''err-a''\<rparr>]"
  by (simp add: ClearErrorCounters_def updateLastErrors_def GetErrors_def connected_def
      mapget0_def)

text \<open>
  When the node-counter query of the snapshot fails, \<open>updateLastErrors\<close> returns without
  a snapshot and the clear command is sent all the same.
\<close>

lemma ClearErrorCounters_without_snapshot:
  "GetErrors
     (fst (ClearErrorCounters connected (Inl (Err ''timeout'')) (Inr [])))
     (Inr [\<lparr>Value = 5, Node = ''node1'', Name = ''err-a''\<rparr>])
   = Inr [\<lparr>Value = 5, Node = ''node1'', Name = ''err-a''\<rparr>]"
  by (simp add: ClearErrorCounters_def updateLastErrors_def GetErrors_def connected_def
      mapget0_def)

text \<open>
  The key is the node name followed directly by the counter name, so two different
  counters can share a key; the later one's value is then the baseline of both.
\<close>

lemma ClearErrorCounters_key_collision:
  "GetErrors
     (fst (ClearErrorCounters connected
        (Inr [\<lparr>Value = 5, Node = ''ab'', Name = ''c''\<rparr>,
              \<lparr>Value = 3, Node = ''a'', Name = ''bc''\<rparr>]) (Inr [])))
     (Inr [\<lparr>Value = 5, Node = ''ab'', Name = ''c''\<rparr>,
           \<lparr>Value = 3, Node = ''a'', Name = ''bc''\<rparr>])
   = Inr [\<lparr>Value = 2, Node = ''ab'', Name = ''c''\<rparr>]"
  by (simp add: ClearErrorCounters_def updateLastErrors_def GetErrors_def connected_def
      mapget0_def)

section \<open>The two fetches of GetInterfaces\<close>

lemma first_error_append:
  "first_error (xs @ ys) = (case first_error xs of Some e \<Rightarrow> Some e | None \<Rightarrow> first_error ys)"
  by (induction xs rule: first_error.induct) simp_all

lemma first_error_None: "first_error xs = None \<longleftrightarrow> (\<forall>x \<in> set xs. x = None)"
  by (induction xs rule: first_error.induct) simp_all

lemma first_error_mem: "first_error xs = Some e \<Longrightarrow> Some e \<in> set xs"
  by (induction xs rule: first_error.induct) simp_all

lemma first_error_take_Suc:
  "n < length xs \<Longrightarrow> first_error (take n xs) = None \<Longrightarrow>
   first_error (take (Suc n) xs) = xs ! n"
  by (simp add: take_Suc_conv_app_nth first_error_append split: option.splits)
     (cases "xs ! n"; simp)

lemma first_error_nth:
  assumes "n < length xs" "first_error (take n xs) = None" "xs ! n = Some e"
  shows "first_error xs = Some e"
proof -
  have "first_error (take (Suc n) xs @ drop (Suc n) xs) = Some e"
    using first_error_take_Suc [OF assms(1) assms(2)] assms(3)
    by (simp only: first_error_append option.case)
  then show ?thesis by simp
qed

lemma gi_inv_start: "gi_inv dump stats gi_start"
  by (simp add: gi_inv_def gi_start_def)

lemma gi_inv_step:
  assumes "gi_inv dump stats st"
  shows "gi_inv dump stats (gi_step dump stats ev st)"
proof (cases ev)
  case DetailsFetched
  then show ?thesis using assms
    by (auto simp: gi_inv_def first_error_append split: option.splits)
next
  case StatsFetched
  then show ?thesis using assms
    by (auto simp: gi_inv_def first_error_append split: option.splits)
next
  case ChanClosed
  then show ?thesis using assms
    by (auto simp: gi_inv_def)
next
  case MainReceive
  show ?thesis
  proof (cases "returned st \<noteq> None")
    case True
    then show ?thesis using assms MainReceive by auto
  next
    case ret: False
    show ?thesis
    proof (cases "received st < length (errChan st)")
      case True
      show ?thesis
      proof (cases "errChan st ! received st")
        case None
        then show ?thesis using assms MainReceive ret True
          by (auto simp: gi_inv_def first_error_take_Suc)
      next
        case (Some err)
        then show ?thesis using assms MainReceive ret True
          by (auto simp: gi_inv_def first_error_nth)
      qed
    next
      case False
      then show ?thesis using assms MainReceive ret
        by (cases dump; cases stats; auto simp: gi_inv_def first_error_None)
    qed
  qed
qed

lemma gi_inv_list:
  "gi_inv dump stats st \<Longrightarrow> returned st = Some (Inr r) \<Longrightarrow>
   \<exists>d s. dump = Inr d \<and> stats = Inr s \<and> r = GetInterfaces_loop d s []"
  by (simp add: gi_inv_def)

lemma gi_inv_error:
  assumes "gi_inv dump stats st" and "returned st = Some (Inl e)"
  shows "\<exists>err. first_error (errChan st) = Some err \<and>
               (Some err = errof dump \<or> Some err = errof stats) \<and>
               e = Err (''request failed: '' @ errmsg err)"
proof -
  from assms obtain err where
    fe: "first_error (errChan st) = Some err" and e: "e = Err (''request failed: '' @ errmsg err)"
    by (auto simp: gi_inv_def)
  have "Some err \<in> set (errChan st)"
    using fe by (rule first_error_mem)
  moreover have "set (errChan st) \<subseteq> {errof dump, errof stats}"
    using assms(1) by (simp add: gi_inv_def)
  ultimately have "Some err = errof dump \<or> Some err = errof stats"
    by auto
  with fe e show ?thesis by blast
qed

lemma gi_inv_run:
  "gi_inv dump stats st \<Longrightarrow> gi_inv dump stats (gi_run dump stats evs st)"
  by (induction evs arbitrary: st) (simp_all add: gi_inv_step)

lemma gi_run_append:
  "gi_run dump stats (xs @ ys) st = gi_run dump stats ys (gi_run dump stats xs st)"
  by (induction xs arbitrary: st) simp_all

lemma returned_step:
  "returned st \<noteq> None \<Longrightarrow> returned (gi_step dump stats ev st) = returned st"
  by (cases ev) auto

lemma returned_run:
  "returned st \<noteq> None \<Longrightarrow> returned (gi_run dump stats evs st) = returned st"
  by (induction evs arbitrary: st) (simp_all add: returned_step)

lemma receive_to_the_end:
  "chanClosed st \<Longrightarrow> length (errChan st) - received st \<le> n \<Longrightarrow>
   returned (gi_run dump stats (replicate (Suc n) MainReceive) st) \<noteq> None"
proof (induction n arbitrary: st)
  case 0
  then show ?case by (auto split: option.splits)
next
  case (Suc n)
  let ?st = "gi_step dump stats MainReceive st"
  have "chanClosed ?st" using Suc.prems by (auto split: option.splits)
  moreover have "returned ?st = None \<Longrightarrow> length (errChan ?st) - received ?st \<le> n"
    using Suc.prems by (auto split: option.splits if_splits)
  ultimately show ?case
    using Suc.IH [of ?st] returned_run [of ?st dump stats "replicate (Suc n) MainReceive"]
    by (cases "returned ?st = None") simp_all
qed

lemma gi_complete_returns:
  assumes "gi_inv dump stats st"
  shows "returned (gi_run dump stats gi_complete st) \<noteq> None"
proof -
  let ?st = "gi_run dump stats [DetailsFetched, StatsFetched, ChanClosed] st"
  have inv: "gi_inv dump stats ?st" using assms by (rule gi_inv_run)
  have "\<not> detailsRunning ?st \<and> \<not> statsRunning ?st" by simp
  then have "chanClosed ?st" and "length (errChan ?st) - received ?st \<le> 2"
    using inv by (simp_all add: gi_inv_def)
  then have r: "returned (gi_run dump stats (replicate (Suc 2) MainReceive) ?st) \<noteq> None"
    by (rule receive_to_the_end)
  have eq: "gi_complete = [DetailsFetched, StatsFetched, ChanClosed] @ replicate (Suc 2) MainReceive"
    by (simp add: gi_complete_def numeral_2_eq_2)
  show ?thesis
    unfolding eq gi_run_append using r .
qed

lemma GetInterfaces_loop_eq:
  "GetInterfaces_loop d cs acc =
     acc @ map (\<lambda>c. InterfaceCounters.extend c
                 (Interface.fields (IpAddresses (the (d (InterfaceIndex c))))
                    (if Enabled (the (d (InterfaceIndex c))) then stateUp else stateDown)
                    (Meta_MTU (the (d (InterfaceIndex c))))))
             (filter (\<lambda>c. InterfaceIndex c \<in> dom d) cs)"
  by (induction cs arbitrary: acc) (auto simp: Let_def split: option.splits)

lemma truncate_extend:
  "InterfaceCounters.truncate (InterfaceCounters.extend c ext) = c"
  by (simp add: InterfaceCounters.truncate_def InterfaceCounters.extend_def)

lemma ext_sel:
  "IPAddrs (InterfaceCounters.extend c (Interface.fields a b m)) = a"
  "State (InterfaceCounters.extend c (Interface.fields a b m)) = b"
  "MTU (InterfaceCounters.extend c (Interface.fields a b m)) = m"
  "InterfaceIndex (InterfaceCounters.extend c (Interface.fields a b m)) = InterfaceIndex c"
  "InterfaceName (InterfaceCounters.extend c (Interface.fields a b m)) = InterfaceName c"
  by (simp_all add: InterfaceCounters.extend_def Interface.fields_def)

text \<open>
  The interface dump fails before the counters have been fetched: the caller takes the
  error from the channel and returns it while the counter fetch is still running.
\<close>

theorem GetInterfaces_returns_before_join:
  "returned (gi_run (Inl (Err ''timeout'')) (Inr []) [DetailsFetched, MainReceive] gi_start)
     = Some (Inl (Err ''request failed: timeout''))
   \<and> statsRunning (gi_run (Inl (Err ''timeout'')) (Inr []) [DetailsFetched, MainReceive] gi_start)"
  by (simp add: gi_start_def)

text \<open>
  C4, amended. When either fetch fails, \<open>GetInterfaces\<close> never returns a list, under
  any schedule; an error it returns is \<open>request failed:\<close> followed by the first
  non-nil error sent on the channel, which is the error of one of the two fetches; and
  once both goroutines have finished and the caller has read the channel to the end, it
  has returned an error. The caller does not wait for both fetches: when the fetch that
  fails is the first to finish, the caller returns its error while the other fetch is
  still running.
\<close>

theorem GetInterfaces_error:
  assumes "errof dump \<noteq> None \<or> errof stats \<noteq> None"
  shows "(\<forall>r. GetInterfaces dump stats sched \<noteq> Some (Inr r))
    \<and> (\<forall>e. GetInterfaces dump stats sched = Some (Inl e) \<longrightarrow>
          (\<exists>err. first_error (errChan (gi_run dump stats sched gi_start)) = Some err \<and>
                 (Some err = errof dump \<or> Some err = errof stats) \<and>
                 e = Err (''request failed: '' @ errmsg err)))
    \<and> (\<exists>e. GetInterfaces dump stats (sched @ gi_complete) = Some (Inl e))
    \<and> (\<forall>err. dump = Inl err \<longrightarrow>
          GetInterfaces dump stats [DetailsFetched, MainReceive]
            = Some (Inl (Err (''request failed: '' @ errmsg err))) \<and>
          statsRunning (gi_run dump stats [DetailsFetched, MainReceive] gi_start))
    \<and> (\<forall>err. stats = Inl err \<longrightarrow>
          GetInterfaces dump stats [StatsFetched, MainReceive]
            = Some (Inl (Err (''request failed: '' @ errmsg err))) \<and>
          detailsRunning (gi_run dump stats [StatsFetched, MainReceive] gi_start))"
proof (intro conjI allI impI)
  have inv: "gi_inv dump stats (gi_run dump stats evs gi_start)" for evs
    by (rule gi_inv_run [OF gi_inv_start])
  have no_list: "GetInterfaces dump stats evs \<noteq> Some (Inr r)" for evs r
    using gi_inv_list [OF inv [of evs], of r] assms by (auto simp: GetInterfaces_def)
  show "GetInterfaces dump stats sched \<noteq> Some (Inr r)" for r
    by (rule no_list)
  show "\<exists>err. first_error (errChan (gi_run dump stats sched gi_start)) = Some err \<and>
                 (Some err = errof dump \<or> Some err = errof stats) \<and>
                 e = Err (''request failed: '' @ errmsg err)"
    if "GetInterfaces dump stats sched = Some (Inl e)" for e
    using gi_inv_error [OF inv [of sched]] that by (simp add: GetInterfaces_def)
  show "\<exists>e. GetInterfaces dump stats (sched @ gi_complete) = Some (Inl e)"
  proof -
    have "returned (gi_run dump stats gi_complete (gi_run dump stats sched gi_start)) \<noteq> None"
      by (rule gi_complete_returns [OF inv])
    then obtain res where "GetInterfaces dump stats (sched @ gi_complete) = Some res"
      by (auto simp: GetInterfaces_def gi_run_append)
    then show ?thesis
      using no_list [of "sched @ gi_complete"] by (cases res) auto
  qed
  show "GetInterfaces dump stats [DetailsFetched, MainReceive]
            = Some (Inl (Err (''request failed: '' @ errmsg err)))" if "dump = Inl err" for err
    using that by (simp add: GetInterfaces_def gi_start_def)
  show "statsRunning (gi_run dump stats [DetailsFetched, MainReceive] gi_start)"
    if "dump = Inl err" for err
    using that by (simp add: gi_start_def)
  show "GetInterfaces dump stats [StatsFetched, MainReceive]
            = Some (Inl (Err (''request failed: '' @ errmsg err)))" if "stats = Inl err" for err
    using that by (simp add: GetInterfaces_def gi_start_def)
  show "detailsRunning (gi_run dump stats [StatsFetched, MainReceive] gi_start)"
    if "stats = Inl err" for err
    using that by (simp add: gi_start_def)
qed

text \<open>The dump times out after the counters have arrived.\<close>

theorem GetInterfaces_error_witness:
  "errof (Inl (Err ''timeout'') :: error + (uint32 \<rightharpoonup> InterfaceDetails)) \<noteq> None
   \<and> GetInterfaces (Inl (Err ''timeout'')) (Inr [sample_counters 1 ''eth0'' 0 0])
        [StatsFetched, DetailsFetched, ChanClosed, MainReceive, MainReceive]
       = Some (Inl (Err ''request failed: timeout''))
   \<and> (\<exists>e. GetInterfaces (Inl (Err ''timeout'')) (Inr [sample_counters 1 ''eth0'' 0 0])
            ([StatsFetched, MainReceive] @ gi_complete) = Some (Inl e))"
  using GetInterfaces_error [of "Inl (Err ''timeout'')" "Inr [sample_counters 1 ''eth0'' 0 0]"
      "[StatsFetched, MainReceive]"]
  by (simp add: GetInterfaces_def gi_start_def)

text \<open>
  C5. When \<open>GetInterfaces\<close> returns a list, both fetches succeeded; the counters of the
  entries of the list are, in order, exactly the fetched counters whose interface index
  is a key of the fetched details; and each entry's state is \<open>up\<close> when the details
  at its index are enabled and \<open>down\<close> otherwise (its addresses and MTU are those of
  the details). When both fetches succeed, every schedule that lets the goroutines
  finish and the caller read to the end returns that list, so a counter without details
  is dropped without an error.
\<close>

theorem GetInterfaces_join:
  "(\<forall>r. GetInterfaces dump stats sched = Some (Inr r) \<longrightarrow>
      (\<exists>d s. dump = Inr d \<and> stats = Inr s \<and>
         map InterfaceCounters.truncate r = filter (\<lambda>c. InterfaceIndex c \<in> dom d) s \<and>
         (\<forall>x \<in> set r. \<exists>details. d (InterfaceIndex x) = Some details \<and>
            State x = (if Enabled details then ''up'' else ''down'') \<and>
            IPAddrs x = IpAddresses details \<and> MTU x = Meta_MTU details)))
   \<and> (\<forall>d s. dump = Inr d \<and> stats = Inr s \<longrightarrow>
        GetInterfaces dump stats (sched @ gi_complete) = Some (Inr (GetInterfaces_loop d s [])))"
proof (intro conjI allI impI)
  have inv: "gi_inv dump stats (gi_run dump stats evs gi_start)" for evs
    by (rule gi_inv_run [OF gi_inv_start])
  show "\<exists>d s. dump = Inr d \<and> stats = Inr s \<and>
         map InterfaceCounters.truncate r = filter (\<lambda>c. InterfaceIndex c \<in> dom d) s \<and>
         (\<forall>x \<in> set r. \<exists>details. d (InterfaceIndex x) = Some details \<and>
            State x = (if Enabled details then ''up'' else ''down'') \<and>
            IPAddrs x = IpAddresses details \<and> MTU x = Meta_MTU details)"
    if "GetInterfaces dump stats sched = Some (Inr r)" for r
  proof -
    from that gi_inv_list [OF inv [of sched], of r] obtain d s where
      ds: "dump = Inr d" "stats = Inr s" and r: "r = GetInterfaces_loop d s []"
      by (auto simp: GetInterfaces_def)
    have "map InterfaceCounters.truncate r = filter (\<lambda>c. InterfaceIndex c \<in> dom d) s"
      unfolding r GetInterfaces_loop_eq by (simp add: o_def truncate_extend)
    moreover have "\<forall>x \<in> set r. \<exists>details. d (InterfaceIndex x) = Some details \<and>
            State x = (if Enabled details then ''up'' else ''down'') \<and>
            IPAddrs x = IpAddresses details \<and> MTU x = Meta_MTU details"
      unfolding r GetInterfaces_loop_eq
      by (auto simp: ext_sel stateUp_def stateDown_def)
    ultimately show ?thesis using ds by blast
  qed
  show "GetInterfaces dump stats (sched @ gi_complete) = Some (Inr (GetInterfaces_loop d s []))"
    if "dump = Inr d \<and> stats = Inr s" for d s
  proof -
    have "returned (gi_run dump stats gi_complete (gi_run dump stats sched gi_start)) \<noteq> None"
      by (rule gi_complete_returns [OF inv])
    then obtain res where res: "GetInterfaces dump stats (sched @ gi_complete) = Some res"
      by (auto simp: GetInterfaces_def gi_run_append)
    show ?thesis
    proof (cases res)
      case (Inl e)
      with res gi_inv_error [OF inv [of "sched @ gi_complete"], of e] that show ?thesis
        by (auto simp: GetInterfaces_def)
    next
      case (Inr r)
      with res gi_inv_list [OF inv [of "sched @ gi_complete"], of r] that show ?thesis
        by (auto simp: GetInterfaces_def)
    qed
  qed
qed

text \<open>Three counters, details for two of them: the entry with index 2 is dropped.\<close>

theorem GetInterfaces_join_witness:
  "GetInterfaces
     (Inr [1 \<mapsto> \<lparr>Enabled = True, IpAddresses = [''10.0.0.1/24''], Meta_MTU = [1500, 0, 0, 0]\<rparr>,
           3 \<mapsto> \<lparr>Enabled = False, IpAddresses = [], Meta_MTU = [1500, 0, 0, 0]\<rparr>])
     (Inr [sample_counters 3 ''eth3'' 30 3, sample_counters 2 ''eth2'' 20 2,
           sample_counters 1 ''eth1'' 10 1])
     ([StatsFetched, MainReceive] @ gi_complete)
   = Some (Inr [sample_interface 3 ''eth3'' 30 3 [] ''down'',
                sample_interface 1 ''eth1'' 10 1 [''10.0.0.1/24''] ''up''])"
  using GetInterfaces_join [of
      "Inr [1 \<mapsto> \<lparr>Enabled = True, IpAddresses = [''10.0.0.1/24''], Meta_MTU = [1500, 0, 0, 0]\<rparr>,
           3 \<mapsto> \<lparr>Enabled = False, IpAddresses = [], Meta_MTU = [1500, 0, 0, 0]\<rparr>]"
      "Inr [sample_counters 3 ''eth3'' 30 3, sample_counters 2 ''eth2'' 20 2,
           sample_counters 1 ''eth1'' 10 1]"
      "[StatsFetched, MainReceive]"]
  by (simp add: sample_interface_def sample_counters_def stateUp_def stateDown_def)

section \<open>The version loop of ConnectRemote\<close>

lemma ConnectRemote_versions_none:
  "\<forall>v \<in> set order. \<not> compatible (Msgs_at (govppmux_Versions B) v) \<Longrightarrow>
   ConnectRemote_versions B compatible order registry = (None, registry)"
  by (induction order) simp_all

lemma ConnectRemote_versions_split:
  "compatible (Msgs_at (govppmux_Versions B) ver) \<Longrightarrow>
   \<forall>v \<in> set before. \<not> compatible (Msgs_at (govppmux_Versions B) v) \<Longrightarrow>
   ConnectRemote_versions B compatible (before @ ver # after) registry =
     (Some ver, registry @ version_messages B ver)"
  by (induction before) (simp_all add: version_messages_def)

lemma ConnectRemote_versions_some:
  "fst (ConnectRemote_versions B compatible order registry) = Some ver \<Longrightarrow>
   \<exists>before after. order = before @ ver # after \<and>
      compatible (Msgs_at (govppmux_Versions B) ver) \<and>
      (\<forall>v \<in> set before. \<not> compatible (Msgs_at (govppmux_Versions B) v))"
proof (induction order)
  case Nil
  then show ?case by simp
next
  case (Cons v vs)
  show ?case
  proof (cases "compatible (Msgs_at (govppmux_Versions B) v)")
    case True
    with Cons.prems have "ver = v" by simp
    with True have "v # vs = [] @ ver # vs \<and> compatible (Msgs_at (govppmux_Versions B) ver) \<and>
      (\<forall>v \<in> set []. \<not> compatible (Msgs_at (govppmux_Versions B) v))"
      by simp
    then show ?thesis by blast
  next
    case False
    with Cons.prems have "fst (ConnectRemote_versions B compatible vs registry) = Some ver"
      by simp
    from Cons.IH [OF this] obtain before after where
      "vs = before @ ver # after" "compatible (Msgs_at (govppmux_Versions B) ver)"
      "\<forall>v \<in> set before. \<not> compatible (Msgs_at (govppmux_Versions B) v)"
      by blast
    with False have "v # vs = (v # before) @ ver # after \<and>
      compatible (Msgs_at (govppmux_Versions B) ver) \<and>
      (\<forall>w \<in> set (v # before). \<not> compatible (Msgs_at (govppmux_Versions B) w))"
      by simp
    then show ?thesis by blast
  qed
qed

lemma ConnectRemote_versions_find:
  "fst (ConnectRemote_versions B compatible order registry) =
     List.find (\<lambda>ver. compatible (Msgs_at (govppmux_Versions B) ver)) order"
  by (induction order) simp_all

lemma ConnectRemote_versions_unique:
  assumes "set order = set order'"
    and "\<forall>v \<in> set order. \<forall>w \<in> set order.
           compatible (Msgs_at (govppmux_Versions B) v) \<and>
           compatible (Msgs_at (govppmux_Versions B) w) \<longrightarrow> v = w"
  shows "ConnectRemote_versions B compatible order' registry =
         ConnectRemote_versions B compatible order registry"
proof (cases "\<exists>v \<in> set order. compatible (Msgs_at (govppmux_Versions B) v)")
  case False
  then show ?thesis
    using assms(1) by (simp add: ConnectRemote_versions_none)
next
  case True
  then obtain v where v: "v \<in> set order" "compatible (Msgs_at (govppmux_Versions B) v)"
    by blast
  have only: "\<forall>w \<in> set order. w \<noteq> v \<longrightarrow> \<not> compatible (Msgs_at (govppmux_Versions B) w)"
    using assms(2) v by blast
  have "ConnectRemote_versions B compatible xs registry = (Some v, registry @ version_messages B v)"
    if "set xs = set order" for xs
  proof -
    from v(1) that obtain before after where xs: "xs = before @ v # after" "v \<notin> set before"
      by (metis split_list_first)
    have "\<forall>w \<in> set before. \<not> compatible (Msgs_at (govppmux_Versions B) w)"
      using only xs that by auto
    with v(2) show ?thesis
      unfolding xs(1) by (rule ConnectRemote_versions_split)
  qed
  from this [of order] this [of order'] assms(1) show ?thesis by simp
qed

text \<open>
  The version table holds two releases and the channel is compatible with both: the
  loop selects 19.04 when the map iteration visits it first and 19.08 when it visits
  that one first.
\<close>

theorem ConnectRemote_order_dependent:
  "iteration_order two_releases [''19.04'', ''19.08'']
   \<and> iteration_order two_releases [''19.08'', ''19.04'']
   \<and> fst (ConnectRemote_versions two_releases accepts_all [''19.04'', ''19.08''] []) = Some ''19.04''
   \<and> fst (ConnectRemote_versions two_releases accepts_all [''19.08'', ''19.04''] []) = Some ''19.08''"
  by (auto simp: iteration_order_def two_releases_def accepts_all_def Msgs_at_def)

text \<open>
  C6, amended. The version loop visits the releases in the order of this run's map
  iteration, which the language does not fix, and selects the first release in that
  order whose compatibility check passes: every release visited before the selected
  one failed its check, so a later compatible one is never selected. When at most one
  release of the table is compatible, every iteration order gives the same selection
  and the same registered messages; a connection compatible with several releases
  gets whichever of them the iteration reaches first.
\<close>

theorem ConnectRemote_first_match:
  "fst (ConnectRemote_versions B compatible order registry) =
     List.find (\<lambda>ver. compatible (Msgs_at (govppmux_Versions B) ver)) order
   \<and> (\<forall>ver. fst (ConnectRemote_versions B compatible order registry) = Some ver \<longrightarrow>
        (\<exists>before after. order = before @ ver # after \<and>
           compatible (Msgs_at (govppmux_Versions B) ver) \<and>
           (\<forall>v \<in> set before. \<not> compatible (Msgs_at (govppmux_Versions B) v))))
   \<and> (\<forall>order'. iteration_order B order \<and> iteration_order B order' \<and>
          (\<forall>v \<in> dom (govppmux_Versions B). \<forall>w \<in> dom (govppmux_Versions B).
             compatible (Msgs_at (govppmux_Versions B) v) \<and>
             compatible (Msgs_at (govppmux_Versions B) w) \<longrightarrow> v = w) \<longrightarrow>
        ConnectRemote_versions B compatible order' registry =
        ConnectRemote_versions B compatible order registry)"
proof (intro conjI allI impI)
  show "fst (ConnectRemote_versions B compatible order registry) =
     List.find (\<lambda>ver. compatible (Msgs_at (govppmux_Versions B) ver)) order"
    by (rule ConnectRemote_versions_find)
  show "\<exists>before after. order = before @ ver # after \<and>
           compatible (Msgs_at (govppmux_Versions B) ver) \<and>
           (\<forall>v \<in> set before. \<not> compatible (Msgs_at (govppmux_Versions B) v))"
    if "fst (ConnectRemote_versions B compatible order registry) = Some ver" for ver
    using that by (rule ConnectRemote_versions_some)
  show "ConnectRemote_versions B compatible order' registry =
        ConnectRemote_versions B compatible order registry"
    if "iteration_order B order \<and> iteration_order B order' \<and>
          (\<forall>v \<in> dom (govppmux_Versions B). \<forall>w \<in> dom (govppmux_Versions B).
             compatible (Msgs_at (govppmux_Versions B) v) \<and>
             compatible (Msgs_at (govppmux_Versions B) w) \<longrightarrow> v = w)" for order'
    using that by (intro ConnectRemote_versions_unique) (auto simp: iteration_order_def)
qed

text \<open>The channel is compatible with 19.08 only: both orders select it.\<close>

theorem ConnectRemote_first_match_witness:
  "iteration_order two_releases [''19.04'', ''19.08'']
   \<and> iteration_order two_releases [''19.08'', ''19.04'']
   \<and> ConnectRemote_versions two_releases accepts_1908 [''19.04'', ''19.08''] []
       = (Some ''19.08'', [''show_version_1908''])
   \<and> ConnectRemote_versions two_releases accepts_1908 [''19.08'', ''19.04''] []
       = ConnectRemote_versions two_releases accepts_1908 [''19.04'', ''19.08''] []
   \<and> (\<exists>before after. [''19.04'', ''19.08''] = before @ ''19.08'' # after)"
  using ConnectRemote_first_match [of two_releases accepts_1908 "[''19.04'', ''19.08'']" "[]"]
  by (auto simp: iteration_order_def two_releases_def accepts_1908_def Msgs_at_def)

section \<open>Sorting\<close>

lemma asc_update_same:
  "asc (xs[i := \<lparr>asc = asc (xs ! i), field = c\<rparr>] ! t) = asc (xs ! t)"
  by (cases "i < length xs") (simp_all add: nth_list_update list_update_beyond)

lemma sortSpec_update_same:
  assumes "field (xs ! i) = c"
  shows "xs[i := \<lparr>asc = asc (xs ! i), field = c\<rparr>] = xs"
proof -
  have "\<lparr>asc = asc (xs ! i), field = c\<rparr> = xs ! i"
    using assms by (cases "xs ! i") simp
  then show ?thesis by simp
qed

lemma onSort_length: "length (sortBy (onSort payload app)) = length (sortBy app)"
  by (simp add: onSort_def)

lemma onSort_asc_flips:
  assumes "length (sortBy app) = 5"
    and "CurrTab payload = Interfaces \<or> CurrTab payload = Nodes \<or> CurrTab payload = Errors"
  shows "sortBy (onSort payload app) =
           (sortBy app)[nat (CurrTab payload) :=
              \<lparr>asc = \<not> asc (sortBy app ! nat (CurrTab payload)), field = CurrRow payload\<rparr>]"
  using assms by (auto simp: onSort_def Interfaces_def Nodes_def Errors_def)

lemma onSort_other:
  assumes "CurrTab payload \<noteq> Interfaces" "CurrTab payload \<noteq> Nodes" "CurrTab payload \<noteq> Errors"
  shows "onSort payload app = app"
  using assms by (simp add: onSort_def)

lemma onSort_twice_sortBy:
  assumes "length (sortBy app) = 5"
  shows "sortBy (onSort payload (onSort payload app)) =
     (if CurrTab payload = Interfaces \<or> CurrTab payload = Nodes \<or> CurrTab payload = Errors
      then (sortBy app)[nat (CurrTab payload) :=
              \<lparr>asc = asc (sortBy app ! nat (CurrTab payload)), field = CurrRow payload\<rparr>]
      else sortBy app)"
proof (cases "CurrTab payload = Interfaces \<or> CurrTab payload = Nodes \<or> CurrTab payload = Errors")
  case True
  then have lt: "nat (CurrTab payload) < 5"
    by (auto simp: Interfaces_def Nodes_def Errors_def)
  have len: "length (sortBy (onSort payload app)) = 5"
    using assms by (simp add: onSort_length)
  show ?thesis
    using True lt assms
    by (simp add: onSort_asc_flips [OF len True] onSort_asc_flips [OF assms True])
next
  case False
  then show ?thesis by (simp add: onSort_other)
qed

text \<open>
  C9. A sort event on one of the three sortable tabs stores the column and flips the
  tab's ascending flag; it never sets the flag to a given value. Two sort events in
  succession on the same tab and column therefore leave every tab's ascending flag as
  it was before the first, and when the tab was already sorted on that column they
  leave the whole application state as it was; a third event gives the state after the
  first again. On the two other tabs a sort event changes nothing.
\<close>

theorem onSort_twice:
  assumes "length (sortBy app) = 5"
  shows "(\<forall>t < 5. asc (sortBy (onSort payload (onSort payload app)) ! t) = asc (sortBy app ! t))
    \<and> (CurrTab payload = Interfaces \<or> CurrTab payload = Nodes \<or> CurrTab payload = Errors \<longrightarrow>
         asc (sortBy (onSort payload app) ! nat (CurrTab payload))
           = (\<not> asc (sortBy app ! nat (CurrTab payload))) \<and>
         field (sortBy (onSort payload app) ! nat (CurrTab payload)) = CurrRow payload)
    \<and> (field (sortBy app ! nat (CurrTab payload)) = CurrRow payload \<longrightarrow>
         onSort payload (onSort payload app) = app)
    \<and> onSort payload (onSort payload (onSort payload app)) = onSort payload app
    \<and> length (sortBy (onSort payload app)) = 5"
proof (intro conjI allI impI)
  show "asc (sortBy (onSort payload (onSort payload app)) ! t) = asc (sortBy app ! t)"
    if "t < 5" for t
    using assms by (simp add: onSort_twice_sortBy asc_update_same)
  show "asc (sortBy (onSort payload app) ! nat (CurrTab payload))
           = (\<not> asc (sortBy app ! nat (CurrTab payload)))"
    if "CurrTab payload = Interfaces \<or> CurrTab payload = Nodes \<or> CurrTab payload = Errors"
    using that assms by (auto simp: onSort_asc_flips Interfaces_def Nodes_def Errors_def)
  show "field (sortBy (onSort payload app) ! nat (CurrTab payload)) = CurrRow payload"
    if "CurrTab payload = Interfaces \<or> CurrTab payload = Nodes \<or> CurrTab payload = Errors"
    using that assms by (auto simp: onSort_asc_flips Interfaces_def Nodes_def Errors_def)
  show len: "length (sortBy (onSort payload app)) = 5"
    using assms by (simp add: onSort_length)
  have other: "onSort payload (onSort payload app) = app\<lparr>sortBy := sortBy (onSort payload (onSort payload app))\<rparr>"
    by (simp add: onSort_def)
  show "onSort payload (onSort payload app) = app"
    if "field (sortBy app ! nat (CurrTab payload)) = CurrRow payload"
  proof -
    have "sortBy (onSort payload (onSort payload app)) = sortBy app"
      using that assms by (simp add: onSort_twice_sortBy sortSpec_update_same)
    with other show ?thesis by simp
  qed
  show "onSort payload (onSort payload (onSort payload app)) = onSort payload app"
  proof -
    have "sortBy (onSort payload (onSort payload (onSort payload app))) = sortBy (onSort payload app)"
    proof (cases "CurrTab payload = Interfaces \<or> CurrTab payload = Nodes \<or> CurrTab payload = Errors")
      case True
      then have lt: "nat (CurrTab payload) < 5"
        by (auto simp: Interfaces_def Nodes_def Errors_def)
      show ?thesis
        using True lt assms
        by (simp add: onSort_twice_sortBy [OF len] onSort_asc_flips [OF assms True])
    next
      case False
      then show ?thesis by (simp add: onSort_other)
    qed
    moreover have "onSort payload (onSort payload (onSort payload app)) =
       (onSort payload app)\<lparr>sortBy := sortBy (onSort payload (onSort payload (onSort payload app)))\<rparr>"
      by (simp add: onSort_def)
    ultimately show ?thesis by simp
  qed
qed

text \<open>Two sort events on column 3 of the interfaces tab, from the initial state.\<close>

theorem onSort_twice_witness:
  "length (sortBy (NewApp (- 1))) = 5
   \<and> asc (sortBy (NewApp (- 1)) ! 0)
   \<and> \<not> asc (sortBy (onSort \<lparr>CurrTab = 0, CurrRow = 3\<rparr> (NewApp (- 1))) ! 0)
   \<and> asc (sortBy (onSort \<lparr>CurrTab = 0, CurrRow = 3\<rparr>
                       (onSort \<lparr>CurrTab = 0, CurrRow = 3\<rparr> (NewApp (- 1)))) ! 0)
   \<and> field (sortBy (onSort \<lparr>CurrTab = 0, CurrRow = 3\<rparr> (NewApp (- 1))) ! 0) = 3
   \<and> onSort \<lparr>CurrTab = 0, CurrRow = 3\<rparr> (onSort \<lparr>CurrTab = 0, CurrRow = 3\<rparr>
        (onSort \<lparr>CurrTab = 0, CurrRow = 3\<rparr> (NewApp (- 1))))
       = onSort \<lparr>CurrTab = 0, CurrRow = 3\<rparr> (NewApp (- 1))"
  using onSort_twice [of "NewApp (- 1)" "\<lparr>CurrTab = 0, CurrRow = 3\<rparr>"]
  by (simp add: NewApp_def Interfaces_def numeral_eq_Suc)

section \<open>Rates on the interfaces tab\<close>

lemma nameToIdx_loop_absent:
  "name \<notin> InterfaceName ` set cache \<Longrightarrow> nameToIdx_loop cache i m name = m name"
  by (induction cache arbitrary: i m) auto

lemma nameToIdx_loop_last:
  "j < length cache \<Longrightarrow> InterfaceName (cache ! j) = name \<Longrightarrow>
   (\<forall>k. j < k \<and> k < length cache \<longrightarrow> InterfaceName (cache ! k) \<noteq> name) \<Longrightarrow>
   nameToIdx_loop cache i m name = Some (i + j)"
proof (induction cache arbitrary: i m j)
  case Nil
  then show ?case by simp
next
  case (Cons x xs)
  show ?case
  proof (cases j)
    case 0
    have "name \<notin> InterfaceName ` set xs"
    proof
      assume "name \<in> InterfaceName ` set xs"
      then obtain k where "k < length xs" "InterfaceName (xs ! k) = name"
        by (auto simp: in_set_conv_nth)
      with Cons.prems(3) 0 show False
        by (auto dest: spec [of _ "Suc k"])
    qed
    then show ?thesis
      using 0 Cons.prems(2) by (simp add: nameToIdx_loop_absent)
  next
    case (Suc j')
    have "nameToIdx_loop xs (Suc i) (m(InterfaceName x \<mapsto> i)) name = Some (Suc i + j')"
    proof (rule Cons.IH)
      show "j' < length xs" using Cons.prems(1) Suc by simp
      show "InterfaceName (xs ! j') = name" using Cons.prems(2) Suc by simp
      show "\<forall>k. j' < k \<and> k < length xs \<longrightarrow> InterfaceName (xs ! k) \<noteq> name"
      proof (intro allI impI)
        fix k assume "j' < k \<and> k < length xs"
        then have "j < Suc k \<and> Suc k < length (x # xs)" using Suc by simp
        with Cons.prems(3) have "InterfaceName ((x # xs) ! Suc k) \<noteq> name" by blast
        then show "InterfaceName (xs ! k) \<noteq> name" by simp
      qed
    qed
    then show ?thesis using Suc by simp
  qed
qed

lemma iface_rates_absent:
  "InterfaceName iface \<notin> InterfaceName ` set cache \<Longrightarrow>
   iface_rates cache (nameToIdx_loop cache 0 Map.empty) iface = (0, 0, 0, 0)"
  by (simp add: iface_rates_def nameToIdx_loop_absent)

lemma iface_rates_last:
  "j < length cache \<Longrightarrow> InterfaceName (cache ! j) = InterfaceName iface \<Longrightarrow>
   (\<forall>k. j < k \<and> k < length cache \<longrightarrow> InterfaceName (cache ! k) \<noteq> InterfaceName iface) \<Longrightarrow>
   iface_rates cache (nameToIdx_loop cache 0 Map.empty) iface =
     (Bytes (Rx iface) - Bytes (Rx (cache ! j)), Bytes (Tx iface) - Bytes (Tx (cache ! j)),
      Packets (Rx iface) - Packets (Rx (cache ! j)), Packets (Tx iface) - Packets (Tx (cache ! j)))"
  using nameToIdx_loop_last [of j cache "InterfaceName iface" 0 Map.empty]
  by (simp add: iface_rates_def)

lemma put_addresses_length: "length (put_addresses addrs rows) = length rows"
  by (induction addrs rows rule: put_addresses.induct) simp_all

lemma put_addresses_cell:
  "k < length rows \<Longrightarrow> 0 < c \<Longrightarrow> put_addresses addrs rows ! k ! c = rows ! k ! c"
proof (induction addrs rows arbitrary: k rule: put_addresses.induct)
  case (1 addr addrs row rows)
  then show ?case by (cases k) simp_all
qed simp_all

lemma iface_rows_length: "length (iface_rows E cache nameToIdx iface) = RowsPerIface"
  by (simp add: iface_rows_def RowsPerIface_def put_addresses_length split: prod.splits)

lemma iface_rows_rates:
  assumes "iface_rates cache nameToIdx iface = (rxbbs, txbbs, rxpps, txpps)"
  shows "iface_rows E cache nameToIdx iface ! 1 ! 5 = Sprint rxpps"
    and "iface_rows E cache nameToIdx iface ! 1 ! 7 = Sprint txpps"
    and "iface_rows E cache nameToIdx iface ! 3 ! 5 = Sprint rxbbs"
    and "iface_rows E cache nameToIdx iface ! 3 ! 7 = Sprint txbbs"
proof -
  let ?rest = "tl (iface_rows E cache nameToIdx iface)"
  have nth: "iface_rows E cache nameToIdx iface ! Suc k = ?rest ! k" for k
    by (simp add: iface_rows_def split: prod.splits)
  have one: "(1::nat) = Suc 0" and three: "(3::nat) = Suc 2" by simp_all
  show "iface_rows E cache nameToIdx iface ! 1 ! 5 = Sprint rxpps"
    unfolding one nth using assms by (simp add: iface_rows_def put_addresses_cell)
  show "iface_rows E cache nameToIdx iface ! 1 ! 7 = Sprint txpps"
    unfolding one nth using assms by (simp add: iface_rows_def put_addresses_cell)
  show "iface_rows E cache nameToIdx iface ! 3 ! 5 = Sprint rxbbs"
    unfolding three nth using assms by (simp add: iface_rows_def put_addresses_cell)
  show "iface_rows E cache nameToIdx iface ! 3 ! 7 = Sprint txbbs"
    unfolding three nth using assms by (simp add: iface_rows_def put_addresses_cell)
qed

lemma nth_concat_blocks:
  "\<forall>x \<in> set xs. length (f x) = n \<Longrightarrow> i < length xs \<Longrightarrow> k < n \<Longrightarrow>
   concat (map f xs) ! (n * i + k) = f (xs ! i) ! k"
proof (induction xs arbitrary: i)
  case Nil
  then show ?case by simp
next
  case (Cons x xs)
  show ?case
  proof (cases i)
    case 0
    with Cons.prems show ?thesis by (simp add: nth_append)
  next
    case (Suc i')
    have "n * i + k = n + (n * i' + k)" using Suc by simp
    moreover have "concat (map f xs) ! (n * i' + k) = f (xs ! i') ! k"
      using Cons.prems Suc by (intro Cons.IH) simp_all
    ultimately show ?thesis
      using Cons.prems Suc by (simp add: nth_append)
  qed
qed

lemma length_concat_blocks:
  "\<forall>x \<in> set xs. length (f x) = n \<Longrightarrow> length (concat (map f xs)) = n * length xs"
  by (induction xs) simp_all

lemma formatInterfaces_loop_eq:
  "formatInterfaces_loop E cache nameToIdx ifaces rows =
     (if \<forall>x \<in> set ifaces. 4 \<le> length (MTU x)
      then Some (rows @ concat (map (iface_rows E cache nameToIdx) ifaces)) else None)"
  by (induction ifaces arbitrary: rows) auto

lemma formatInterfaces_eq:
  "formatInterfaces E cache ifaces =
     (if \<forall>x \<in> set ifaces. 4 \<le> length (MTU x)
      then Some (concat (map (iface_rows E cache (nameToIdx_loop cache 0 Map.empty)) ifaces), ifaces)
      else None)"
  by (simp add: formatInterfaces_def formatInterfaces_loop_eq)

lemma Sprint_0: "Sprint 0 = ''0''"
  by (simp add: Sprint_def digit_def)

text \<open>
  C3. \<open>formatInterfaces\<close> (when no interface has an MTU slice shorter than four, on
  which it would panic) gives every interface its \<open>RowsPerIface\<close> rows and makes the
  interfaces the new cache. For the \<open>i\<close>-th interface the four rates appear in cells 5
  and 7 of rows \<open>RowsPerIface*i + 1\<close> (packets per second, received and sent) and
  \<open>RowsPerIface*i + 3\<close> (bytes per second). When no cached interface has the
  interface's name, all four show 0. Otherwise each shows the current counter minus the
  counter of the cached interface with that name (the last one, should the cache hold
  several), subtracted on 64 bits. Received bytes 1000 and then 1500 for \<open>eth0\<close> show
  the rate 500, and show 0 when \<open>eth0\<close> is not in the cache.
\<close>

theorem formatInterfaces_rates:
  assumes "\<forall>x \<in> set ifaces. 4 \<le> length (MTU x)"
  shows "\<exists>rows. formatInterfaces E cache ifaces = Some (rows, ifaces)
    \<and> length rows = RowsPerIface * length ifaces
    \<and> (\<forall>i < length ifaces.
          (InterfaceName (ifaces ! i) \<notin> InterfaceName ` set cache \<longrightarrow>
             rows ! (RowsPerIface * i + 1) ! 5 = ''0'' \<and> rows ! (RowsPerIface * i + 1) ! 7 = ''0'' \<and>
             rows ! (RowsPerIface * i + 3) ! 5 = ''0'' \<and> rows ! (RowsPerIface * i + 3) ! 7 = ''0'')
        \<and> (\<forall>j < length cache.
             InterfaceName (cache ! j) = InterfaceName (ifaces ! i) \<and>
             (\<forall>k. j < k \<and> k < length cache \<longrightarrow>
                  InterfaceName (cache ! k) \<noteq> InterfaceName (ifaces ! i)) \<longrightarrow>
             rows ! (RowsPerIface * i + 1) ! 5
               = Sprint (Packets (Rx (ifaces ! i)) - Packets (Rx (cache ! j))) \<and>
             rows ! (RowsPerIface * i + 1) ! 7
               = Sprint (Packets (Tx (ifaces ! i)) - Packets (Tx (cache ! j))) \<and>
             rows ! (RowsPerIface * i + 3) ! 5
               = Sprint (Bytes (Rx (ifaces ! i)) - Bytes (Rx (cache ! j))) \<and>
             rows ! (RowsPerIface * i + 3) ! 7
               = Sprint (Bytes (Tx (ifaces ! i)) - Bytes (Tx (cache ! j)))))
    \<and> map_option fst (formatInterfaces ''-'' [sample_interface 1 ''eth0'' 1000 10 [] ''up'']
                          [sample_interface 1 ''eth0'' 1500 15 [] ''up''])
        = Some (iface_rows ''-'' [sample_interface 1 ''eth0'' 1000 10 [] ''up'']
                  [''eth0'' \<mapsto> 0] (sample_interface 1 ''eth0'' 1500 15 [] ''up''))
    \<and> iface_rows ''-'' [sample_interface 1 ''eth0'' 1000 10 [] ''up'']
         [''eth0'' \<mapsto> 0] (sample_interface 1 ''eth0'' 1500 15 [] ''up'') ! 3 ! 5 = ''500''
    \<and> map_option fst (formatInterfaces ''-'' [] [sample_interface 1 ''eth0'' 1500 15 [] ''up''])
        = Some (iface_rows ''-'' [] Map.empty (sample_interface 1 ''eth0'' 1500 15 [] ''up''))
    \<and> iface_rows ''-'' [] Map.empty (sample_interface 1 ''eth0'' 1500 15 [] ''up'') ! 3 ! 5 = ''0''"
proof -
  let ?n2i = "nameToIdx_loop cache 0 Map.empty"
  let ?rows = "concat (map (iface_rows E cache ?n2i) ifaces)"
  have blocks: "\<forall>x \<in> set ifaces. length (iface_rows E cache ?n2i x) = RowsPerIface"
    by (simp add: iface_rows_length)
  have cell: "?rows ! (RowsPerIface * i + k) = iface_rows E cache ?n2i (ifaces ! i) ! k"
    if "i < length ifaces" "k < RowsPerIface" for i k
    using blocks that by (rule nth_concat_blocks)
  have r1: "1 < RowsPerIface" and r3: "3 < RowsPerIface"
    by (simp_all add: RowsPerIface_def)
  have "formatInterfaces E cache ifaces = Some (?rows, ifaces)"
    using assms by (simp add: formatInterfaces_eq)
  moreover have "length ?rows = RowsPerIface * length ifaces"
    using blocks by (rule length_concat_blocks)
  moreover have "?rows ! (RowsPerIface * i + 1) ! 5 = ''0'' \<and> ?rows ! (RowsPerIface * i + 1) ! 7 = ''0'' \<and>
             ?rows ! (RowsPerIface * i + 3) ! 5 = ''0'' \<and> ?rows ! (RowsPerIface * i + 3) ! 7 = ''0''"
    if "i < length ifaces" "InterfaceName (ifaces ! i) \<notin> InterfaceName ` set cache" for i
    using iface_rows_rates [OF iface_rates_absent [OF that(2)], of E]
    unfolding cell [OF that(1) r1] cell [OF that(1) r3]
    by (simp add: Sprint_0)
  moreover have "?rows ! (RowsPerIface * i + 1) ! 5
               = Sprint (Packets (Rx (ifaces ! i)) - Packets (Rx (cache ! j))) \<and>
             ?rows ! (RowsPerIface * i + 1) ! 7
               = Sprint (Packets (Tx (ifaces ! i)) - Packets (Tx (cache ! j))) \<and>
             ?rows ! (RowsPerIface * i + 3) ! 5
               = Sprint (Bytes (Rx (ifaces ! i)) - Bytes (Rx (cache ! j))) \<and>
             ?rows ! (RowsPerIface * i + 3) ! 7
               = Sprint (Bytes (Tx (ifaces ! i)) - Bytes (Tx (cache ! j)))"
    if "i < length ifaces" "j < length cache"
      "InterfaceName (cache ! j) = InterfaceName (ifaces ! i)"
      "\<forall>k. j < k \<and> k < length cache \<longrightarrow> InterfaceName (cache ! k) \<noteq> InterfaceName (ifaces ! i)"
    for i j
    using iface_rows_rates [OF iface_rates_last [OF that(2) that(3) that(4)], of E]
    unfolding cell [OF that(1) r1] cell [OF that(1) r3]
    by simp
  moreover have "map_option fst (formatInterfaces ''-'' [sample_interface 1 ''eth0'' 1000 10 [] ''up'']
                          [sample_interface 1 ''eth0'' 1500 15 [] ''up''])
        = Some (iface_rows ''-'' [sample_interface 1 ''eth0'' 1000 10 [] ''up'']
                  [''eth0'' \<mapsto> 0] (sample_interface 1 ''eth0'' 1500 15 [] ''up''))"
    by (simp add: formatInterfaces_eq sample_interface_def sample_counters_def ext_sel)
  moreover have "iface_rows ''-'' [sample_interface 1 ''eth0'' 1000 10 [] ''up'']
         [''eth0'' \<mapsto> 0] (sample_interface 1 ''eth0'' 1500 15 [] ''up'') ! 3 ! 5 = ''500''"
    by (simp add: iface_rows_def iface_rates_def sample_interface_def sample_counters_def
        ext_sel Sprint_def digit_def InterfaceCounters.extend_def Interface.fields_def)
  moreover have "map_option fst (formatInterfaces ''-'' [] [sample_interface 1 ''eth0'' 1500 15 [] ''up''])
        = Some (iface_rows ''-'' [] Map.empty (sample_interface 1 ''eth0'' 1500 15 [] ''up''))"
    by (simp add: formatInterfaces_eq sample_interface_def sample_counters_def ext_sel)
  moreover have "iface_rows ''-'' [] Map.empty (sample_interface 1 ''eth0'' 1500 15 [] ''up'') ! 3 ! 5 = ''0''"
    by (simp add: iface_rows_def iface_rates_def sample_interface_def sample_counters_def
        ext_sel Sprint_def digit_def InterfaceCounters.extend_def Interface.fields_def)
  ultimately show ?thesis by blast
qed

text \<open>
  Two interfaces polled, one of them in the cache: \<open>eth1\<close> is new and shows 0, \<open>eth0\<close>
  went from 1000 to 1500 received bytes and shows 500.
\<close>

theorem formatInterfaces_rates_witness:
  "\<exists>rows. formatInterfaces ''-'' [sample_interface 1 ''eth0'' 1000 10 [] ''up'']
            [sample_interface 2 ''eth1'' 70 7 [] ''up'', sample_interface 1 ''eth0'' 1500 15 [] ''up'']
          = Some (rows, [sample_interface 2 ''eth1'' 70 7 [] ''up'',
                         sample_interface 1 ''eth0'' 1500 15 [] ''up''])
     \<and> length rows = 22 \<and> rows ! 3 ! 5 = ''0'' \<and> rows ! 14 ! 5 = ''500''"
proof -
  let ?C = "[sample_interface 1 ''eth0'' 1000 10 [] ''up'']"
  let ?I = "[sample_interface 2 ''eth1'' 70 7 [] ''up'', sample_interface 1 ''eth0'' 1500 15 [] ''up'']"
  have mtu: "\<forall>x \<in> set ?I. 4 \<le> length (MTU x)"
    by (simp add: sample_interface_def ext_sel)
  show ?thesis
    using formatInterfaces_rates [OF mtu, of "''-''" ?C]
  proof (elim exE conjE, goal_cases)
    case (1 rows)
    have i0: "(0::nat) < length ?I" and i1: "(1::nat) < length ?I" and j0: "(0::nat) < length ?C"
      by simp_all
    have new: "InterfaceName (?I ! 0) \<notin> InterfaceName ` set ?C"
      by (simp add: sample_interface_def sample_counters_def ext_sel)
    have old: "InterfaceName (?C ! 0) = InterfaceName (?I ! 1) \<and>
        (\<forall>k. 0 < k \<and> k < length ?C \<longrightarrow> InterfaceName (?C ! k) \<noteq> InterfaceName (?I ! 1))"
      by (auto simp: sample_interface_def sample_counters_def ext_sel)
    have "rows ! (RowsPerIface * 0 + 3) ! 5 = ''0''"
      using 1(3) [rule_format, OF i0, THEN conjunct1, rule_format, OF new] by simp
    moreover have "rows ! (RowsPerIface * 1 + 3) ! 5
        = Sprint (Bytes (Rx (?I ! 1)) - Bytes (Rx (?C ! 0)))"
      using 1(3) [rule_format, OF i1, THEN conjunct2, rule_format, OF j0 old] by simp
    moreover have "Sprint (Bytes (Rx (?I ! 1)) - Bytes (Rx (?C ! 0))) = ''500''"
      by (simp add: sample_interface_def sample_counters_def InterfaceCounters.extend_def
          Interface.fields_def Sprint_def digit_def)
    ultimately show ?case
      using 1(1) 1(2) by (simp add: RowsPerIface_def)
  qed
qed

section \<open>The ticker\<close>

lemma formatInterfaces_nil: "formatInterfaces E cache [] = Some ([], [])"
  by (simp add: formatInterfaces_def)

lemma tab_distinct:
  "Interfaces \<noteq> Nodes" "Interfaces \<noteq> Errors" "Interfaces \<noteq> Memory" "Interfaces \<noteq> Threads"
  "Nodes \<noteq> Interfaces" "Nodes \<noteq> Errors" "Nodes \<noteq> Memory" "Nodes \<noteq> Threads"
  "Errors \<noteq> Interfaces" "Errors \<noteq> Nodes" "Errors \<noteq> Memory" "Errors \<noteq> Threads"
  "Memory \<noteq> Interfaces" "Memory \<noteq> Nodes" "Memory \<noteq> Errors" "Memory \<noteq> Threads"
  "Threads \<noteq> Interfaces" "Threads \<noteq> Nodes" "Threads \<noteq> Errors" "Threads \<noteq> Memory"
  by (simp_all add: Interfaces_def Nodes_def Errors_def Memory_def Threads_def)

lemma tab_index:
  "nat Interfaces = 0" "nat Nodes = 1" "nat Errors = 2" "nat Memory = 3" "nat Threads = 4"
  by (simp_all add: Interfaces_def Nodes_def Errors_def Memory_def Threads_def)

lemma tick_Interfaces:
  "currTab app = Interfaces \<Longrightarrow>
   tick X A app =
     (case formatInterfaces (EmptyCell X) (IfCache app)
             (sortInterfaceStats X (fetched (GetInterfaces_result A))
                (field (sortBy app ! 0)) (asc (sortBy app ! 0))) of
        None \<Rightarrow> None
      | Some (rows, cache) \<Rightarrow>
          Some (app\<lparr>IfCache := cache, gui := (gui app)[0 := rows],
                   logged := log_failure ''polling interface stats''
                               (errof (GetInterfaces_result A)) (logged app)\<rparr>))"
  by (simp add: tick_def ViewAtTab_Update_def tab_index Let_def split: option.splits)

lemma tick_other_IfCache:
  "currTab app \<noteq> Interfaces \<Longrightarrow> map_option IfCache (tick X A app) = Some (IfCache app)"
  by (simp add: tick_def ViewAtTab_Update_def Let_def)

text \<open>
  After a poll that found \<open>eth0\<close> the cache holds it; the next poll fails and leaves
  the cache empty.
\<close>

theorem tick_failed_fetch_empties_IfCache:
  "map_option IfCache (tick sample_extern (answering [eth0]) (NewApp (- 1))) = Some [eth0]
   \<and> map_option IfCache
        (Option.bind (tick sample_extern (answering [eth0]) (NewApp (- 1)))
           (tick sample_extern failing)) = Some []"
  by (simp add: tick_Interfaces NewApp_def Interfaces_def formatInterfaces_eq sample_extern_def
      answering_def failing_def keep_order_def eth0_def sample_interface_def ext_sel)

text \<open>
  C7, amended. A tick on the interfaces tab replaces the cache as a whole by the result
  of that tick's fetch, in the order the sort routine gives it: after a successful fetch
  the cache is exactly that poll's interfaces (or the tick has panicked on an MTU slice
  shorter than four and there is no state left), and after a failed fetch the cache is
  empty, as the failed fetch returns nil; it does not keep the previous sample. A tick
  on another tab leaves the cache as it is.
\<close>

theorem tick_replaces_IfCache:
  assumes "\<And>column ascending. sortInterfaceStats X [] column ascending = []"
  shows "(currTab app = Interfaces \<longrightarrow>
            (\<forall>err. GetInterfaces_result A = Inl err \<longrightarrow>
               map_option IfCache (tick X A app) = Some [])
          \<and> (\<forall>ifaces. GetInterfaces_result A = Inr ifaces \<longrightarrow>
               map_option IfCache (tick X A app) =
                 (if \<forall>x \<in> set (sortInterfaceStats X ifaces (field (sortBy app ! 0))
                                   (asc (sortBy app ! 0))). 4 \<le> length (MTU x)
                  then Some (sortInterfaceStats X ifaces (field (sortBy app ! 0))
                               (asc (sortBy app ! 0)))
                  else None)))
    \<and> (currTab app \<noteq> Interfaces \<longrightarrow> map_option IfCache (tick X A app) = Some (IfCache app))"
  using assms by (auto simp: tick_Interfaces tick_other_IfCache formatInterfaces_eq)

text \<open>A successful poll of \<open>eth0\<close> from the initial state, then a failed one.\<close>

theorem tick_replaces_IfCache_witness:
  "sortInterfaceStats sample_extern [] 0 True = []
   \<and> currTab (NewApp (- 1)) = Interfaces
   \<and> map_option IfCache (tick sample_extern (answering [eth0]) (NewApp (- 1))) = Some [eth0]
   \<and> map_option IfCache (tick sample_extern failing (NewApp (- 1))) = Some []
   \<and> map_option IfCache (tick sample_extern failing (onTabSwitch Nodes (NewApp (- 1)))) = Some []"
  using tick_replaces_IfCache [of sample_extern "NewApp (- 1)" "answering [eth0]"]
    tick_replaces_IfCache [of sample_extern "NewApp (- 1)" failing]
    tick_replaces_IfCache [of sample_extern "onTabSwitch Nodes (NewApp (- 1))" failing]
  by (simp add: NewApp_def Interfaces_def Nodes_def onTabSwitch_def sample_extern_def
      answering_def failing_def keep_order_def eth0_def sample_interface_def ext_sel)

lemma format_nil:
  "formatNodes line [] = []" "formatErrors [] = [['''', '''', '''']]"
  "formatMemstats E [] = []" "formatThreads [] = []"
  by (simp_all add: formatNodes_def formatErrors_def formatMemstats_def formatThreads_def)

text \<open>
  A poll shows the eleven rows of \<open>eth0\<close> on the interfaces tab; the next poll fails and
  updates the tab's view with an empty table. On the errors tab a poll shows the counter
  \<open>node1 err-b = 2\<close>; the next poll fails and updates the view with one row of empty
  cells.
\<close>

theorem tick_failed_fetch_pushes_empty_table:
  "map_option (length \<circ> shown 0) (tick sample_extern (answering [eth0]) (NewApp (- 1))) = Some 11
   \<and> map_option (shown 0)
        (Option.bind (tick sample_extern (answering [eth0]) (NewApp (- 1)))
           (tick sample_extern failing)) = Some []
   \<and> map_option (shown 2)
        (tick sample_extern (counting [\<lparr>Value = 2, Node = ''node1'', Name = ''err-b''\<rparr>])
           (onTabSwitch Errors (NewApp (- 1)))) = Some [[''2'', ''node1'', ''err-b'']]
   \<and> map_option (shown 2)
        (Option.bind
           (tick sample_extern (counting [\<lparr>Value = 2, Node = ''node1'', Name = ''err-b''\<rparr>])
              (onTabSwitch Errors (NewApp (- 1))))
           (tick sample_extern failing)) = Some [['''', '''', '''']]"
proof (intro conjI)
  show "map_option (length \<circ> shown 0) (tick sample_extern (answering [eth0]) (NewApp (- 1)))
      = Some 11"
    by (simp add: tick_Interfaces NewApp_def Interfaces_def formatInterfaces_eq sample_extern_def
        answering_def keep_order_def eth0_def sample_interface_def ext_sel shown_def
        iface_rows_length RowsPerIface_def)
  show "map_option (shown 0)
        (Option.bind (tick sample_extern (answering [eth0]) (NewApp (- 1)))
           (tick sample_extern failing)) = Some []"
    by (simp add: tick_Interfaces NewApp_def Interfaces_def formatInterfaces_eq sample_extern_def
        answering_def failing_def keep_order_def eth0_def sample_interface_def ext_sel shown_def)
  have first: "tick sample_extern (counting [\<lparr>Value = 2, Node = ''node1'', Name = ''err-b''\<rparr>])
           (onTabSwitch Errors (NewApp (- 1)))
      = Some ((NewApp (- 1))\<lparr>currTab := Errors,
          gui := (gui (NewApp (- 1)))[2 := [[''2'', ''node1'', ''err-b'']]]\<rparr>)"
    by (simp add: tick_def ViewAtTab_Update_def tab_distinct tab_index onTabSwitch_def NewApp_def
        counting_def sample_extern_def keep_order_def GetErrors_def connected_def mapget0_def
        formatErrors_def Sprint_def digit_def)
  show "map_option (shown 2)
        (tick sample_extern (counting [\<lparr>Value = 2, Node = ''node1'', Name = ''err-b''\<rparr>])
           (onTabSwitch Errors (NewApp (- 1)))) = Some [[''2'', ''node1'', ''err-b'']]"
    unfolding first by (simp add: shown_def NewApp_def)
  show "map_option (shown 2)
        (Option.bind
           (tick sample_extern (counting [\<lparr>Value = 2, Node = ''node1'', Name = ''err-b''\<rparr>])
              (onTabSwitch Errors (NewApp (- 1))))
           (tick sample_extern failing)) = Some [['''', '''', '''']]"
    unfolding first
    by (simp add: tick_def ViewAtTab_Update_def tab_distinct tab_index NewApp_def failing_def
        sample_extern_def keep_order_def GetErrors_def format_nil shown_def)
qed

text \<open>
  C8, amended. A tick in which the current tab's fetch returns an error logs the failure
  and does not end the process, and it still updates the tab's view, with the formatting
  of the nil result: an empty table on the interfaces, nodes, memory and threads tabs,
  one row of three empty cells on the errors tab. The rows displayed before are
  replaced, and on the interfaces tab the sample cache is emptied; nothing else changes.
\<close>

theorem tick_failed_fetch:
  assumes "\<And>column ascending. sortInterfaceStats X [] column ascending = []"
    and "\<And>column ascending. sortNodeStats X [] column ascending = []"
    and "\<And>column ascending. sortErrorStats X [] column ascending = []"
  shows "(currTab app = Interfaces \<and> GetInterfaces_result A = Inl err \<longrightarrow>
            tick X A app = Some (app\<lparr>IfCache := [], gui := (gui app)[0 := []],
              logged := logged app @
                [''error occured while polling interface stats: '' @ errmsg err @ [CHR 0x0A]]\<rparr>))
    \<and> (currTab app = Nodes \<and> GetNodes_result A = Inl err \<longrightarrow>
            tick X A app = Some (app\<lparr>gui := (gui app)[1 := []],
              logged := logged app @
                [''error occured while polling nodes stats: '' @ errmsg err @ [CHR 0x0A]]\<rparr>))
    \<and> (currTab app = Errors \<and> GetNodeCounters_result A = Inl err \<longrightarrow>
            tick X A app = Some (app\<lparr>gui := (gui app)[2 := [['''', '''', '''']]],
              logged := logged app @
                [''error occured while polling errors stats: '' @ errmsg err @ [CHR 0x0A]]\<rparr>))
    \<and> (currTab app = Memory \<and> Memory_result A = Inl err \<longrightarrow>
            tick X A app = Some (app\<lparr>gui := (gui app)[3 := []],
              logged := logged app @
                [''error occured while polling memory stats: '' @ errmsg err @ [CHR 0x0A]]\<rparr>))
    \<and> (currTab app = Threads \<and> Threads_result A = Inl err \<longrightarrow>
            tick X A app = Some (app\<lparr>gui := (gui app)[4 := []],
              logged := logged app @
                [''error occured while polling threads stats: '' @ errmsg err @ [CHR 0x0A]]\<rparr>))"
proof (intro conjI impI)
  show "tick X A app = Some (app\<lparr>IfCache := [], gui := (gui app)[0 := []],
              logged := logged app @
                [''error occured while polling interface stats: '' @ errmsg err @ [CHR 0x0A]]\<rparr>)"
    if "currTab app = Interfaces \<and> GetInterfaces_result A = Inl err"
    using that assms(1) by (simp add: tick_Interfaces formatInterfaces_nil)
  show "tick X A app = Some (app\<lparr>gui := (gui app)[1 := []],
              logged := logged app @
                [''error occured while polling nodes stats: '' @ errmsg err @ [CHR 0x0A]]\<rparr>)"
    if "currTab app = Nodes \<and> GetNodes_result A = Inl err"
    using that assms(2) by (simp add: tick_def ViewAtTab_Update_def tab_distinct tab_index format_nil)
  show "tick X A app = Some (app\<lparr>gui := (gui app)[2 := [['''', '''', '''']]],
              logged := logged app @
                [''error occured while polling errors stats: '' @ errmsg err @ [CHR 0x0A]]\<rparr>)"
    if "currTab app = Errors \<and> GetNodeCounters_result A = Inl err"
    using that assms(3) by (simp add: tick_def ViewAtTab_Update_def tab_distinct tab_index format_nil GetErrors_def)
  show "tick X A app = Some (app\<lparr>gui := (gui app)[3 := []],
              logged := logged app @
                [''error occured while polling memory stats: '' @ errmsg err @ [CHR 0x0A]]\<rparr>)"
    if "currTab app = Memory \<and> Memory_result A = Inl err"
    using that by (simp add: tick_def ViewAtTab_Update_def tab_distinct tab_index format_nil)
  show "tick X A app = Some (app\<lparr>gui := (gui app)[4 := []],
              logged := logged app @
                [''error occured while polling threads stats: '' @ errmsg err @ [CHR 0x0A]]\<rparr>)"
    if "currTab app = Threads \<and> Threads_result A = Inl err"
    using that by (simp add: tick_def ViewAtTab_Update_def tab_distinct tab_index format_nil)
qed

text \<open>Failed polls on the interfaces tab and on the errors tab, from the initial state.\<close>

theorem tick_failed_fetch_witness:
  "sortInterfaceStats sample_extern [] 0 True = []
   \<and> sortNodeStats sample_extern [] 0 True = []
   \<and> sortErrorStats sample_extern [] 0 True = []
   \<and> map_option (shown 0) (tick sample_extern failing (NewApp (- 1))) = Some []
   \<and> map_option logged (tick sample_extern failing (NewApp (- 1)))
       = Some [''error occured while polling interface stats: timeout'' @ [CHR 0x0A]]
   \<and> map_option (shown 2) (tick sample_extern failing (onTabSwitch Errors (NewApp (- 1))))
       = Some [['''', '''', '''']]"
  using tick_failed_fetch [of sample_extern "NewApp (- 1)" failing "Err ''timeout''"]
    tick_failed_fetch [of sample_extern "onTabSwitch Errors (NewApp (- 1))" failing "Err ''timeout''"]
  by (simp add: NewApp_def Interfaces_def Errors_def onTabSwitch_def sample_extern_def
      failing_def keep_order_def shown_def numeral_eq_Suc)

section \<open>Clearing the interface counters\<close>

lemma onClear_IfCache:
  "IfCache (onClear tab A app) = (if tab = Interfaces then [] else IfCache app)"
  by (simp add: onClear_def split: prod.splits)

lemma perform_IfCache:
  assumes "\<not> polls_interfaces a app" and "perform X a app = Some app'" and "IfCache app = []"
  shows "IfCache app' = []"
proof (cases a)
  case (Tick A)
  with assms(1) have "currTab app \<noteq> Interfaces" by simp
  from tick_other_IfCache [OF this, of X A] assms(2,3) Tick show ?thesis by simp
next
  case (Clear tab A)
  with assms(2,3) show ?thesis by (auto simp: onClear_IfCache)
next
  case (Sort payload)
  with assms(2,3) show ?thesis by (auto simp: onSort_def)
next
  case (TabSwitch tab)
  with assms(2,3) show ?thesis by (auto simp: onTabSwitch_def)
qed

lemma perform_all_IfCache:
  "no_interface_poll X acts app \<Longrightarrow> perform_all X acts app = Some app' \<Longrightarrow>
   IfCache app = [] \<Longrightarrow> IfCache app' = []"
proof (induction acts arbitrary: app)
  case Nil
  then show ?case by simp
next
  case (Cons a acts)
  from Cons.prems(2) obtain mid where mid: "perform X a app = Some mid"
    and rest: "perform_all X acts mid = Some app'"
    by (auto split: option.splits)
  have "IfCache mid = []"
    using Cons.prems(1) mid Cons.prems(3) by (intro perform_IfCache [of a app X mid]) simp_all
  moreover have "no_interface_poll X acts mid"
    using Cons.prems(1) mid by simp
  ultimately show ?case
    using rest by (intro Cons.IH [of mid])
qed

lemma perform_gui_length:
  "perform X a app = Some app' \<Longrightarrow> length (gui app') = length (gui app)"
proof (cases a)
  case (Tick A)
  assume "perform X a app = Some app'"
  with Tick show ?thesis
    by (auto simp: tick_def ViewAtTab_Update_def Let_def split: if_splits option.splits)
next
  case (Clear tab A)
  assume "perform X a app = Some app'"
  with Clear show ?thesis by (auto simp: onClear_def split: prod.splits)
next
  case (Sort payload)
  assume "perform X a app = Some app'"
  with Sort show ?thesis by (auto simp: onSort_def)
next
  case (TabSwitch tab)
  assume "perform X a app = Some app'"
  with TabSwitch show ?thesis by (auto simp: onTabSwitch_def)
qed

lemma perform_all_gui_length:
  "perform_all X acts app = Some app' \<Longrightarrow> length (gui app') = length (gui app)"
proof (induction acts arbitrary: app)
  case Nil
  then show ?case by simp
next
  case (Cons a acts)
  from Cons.prems obtain mid where mid: "perform X a app = Some mid"
    and rest: "perform_all X acts mid = Some app'"
    by (auto split: option.splits)
  from Cons.IH [OF rest] perform_gui_length [OF mid] show ?case by simp
qed

lemma rows_without_cache:
  assumes "i < length ifaces"
  shows "concat (map (iface_rows E [] (nameToIdx_loop [] 0 Map.empty)) ifaces)
           ! (RowsPerIface * i + 1) ! 5 = ''0''"
    and "concat (map (iface_rows E [] (nameToIdx_loop [] 0 Map.empty)) ifaces)
           ! (RowsPerIface * i + 1) ! 7 = ''0''"
    and "concat (map (iface_rows E [] (nameToIdx_loop [] 0 Map.empty)) ifaces)
           ! (RowsPerIface * i + 3) ! 5 = ''0''"
    and "concat (map (iface_rows E [] (nameToIdx_loop [] 0 Map.empty)) ifaces)
           ! (RowsPerIface * i + 3) ! 7 = ''0''"
proof -
  let ?n2i = "nameToIdx_loop [] 0 Map.empty"
  let ?rows = "concat (map (iface_rows E [] ?n2i) ifaces)"
  have blocks: "\<forall>x \<in> set ifaces. length (iface_rows E [] ?n2i x) = RowsPerIface"
    by (simp add: iface_rows_length)
  have cell: "?rows ! (RowsPerIface * i + k) = iface_rows E [] ?n2i (ifaces ! i) ! k"
    if "k < RowsPerIface" for k
    using blocks assms that by (rule nth_concat_blocks)
  have r1: "1 < RowsPerIface" and r3: "3 < RowsPerIface"
    by (simp_all add: RowsPerIface_def)
  have rates: "iface_rates [] ?n2i (ifaces ! i) = (0, 0, 0, 0)"
    by (rule iface_rates_absent) simp
  show "?rows ! (RowsPerIface * i + 1) ! 5 = ''0''"
    unfolding cell [OF r1] using iface_rows_rates(1) [OF rates, of E] by (simp add: Sprint_0)
  show "?rows ! (RowsPerIface * i + 1) ! 7 = ''0''"
    unfolding cell [OF r1] using iface_rows_rates(2) [OF rates, of E] by (simp add: Sprint_0)
  show "?rows ! (RowsPerIface * i + 3) ! 5 = ''0''"
    unfolding cell [OF r3] using iface_rows_rates(3) [OF rates, of E] by (simp add: Sprint_0)
  show "?rows ! (RowsPerIface * i + 3) ! 7 = ''0''"
    unfolding cell [OF r3] using iface_rows_rates(4) [OF rates, of E] by (simp add: Sprint_0)
qed

text \<open>
  C10. The clear action for the interfaces tab leaves the sample cache empty, whether
  or not the clear command succeeded. The cache is still empty after any further
  actions (ticks on other tabs, clears, sort events, tab switches) among which there is
  no interface poll. The first interface poll after the clear, when its fetch succeeds
  (and no MTU slice is shorter than four), therefore shows the rate 0 in all four rate
  cells of every interface, and makes the polled interfaces the new cache.
\<close>

theorem onClear_then_rates_zero:
  assumes "length (gui app) = 5"
    and "perform_all X acts (onClear Interfaces A0 app) = Some app1"
    and "no_interface_poll X acts (onClear Interfaces A0 app)"
    and "currTab app1 = Interfaces"
    and "GetInterfaces_result A = Inr ifaces"
    and "\<forall>x \<in> set (sortInterfaceStats X ifaces (field (sortBy app1 ! 0)) (asc (sortBy app1 ! 0))).
           4 \<le> length (MTU x)"
  shows "IfCache (onClear Interfaces A0 app) = []
    \<and> IfCache app1 = []
    \<and> (\<exists>app2. tick X A app1 = Some app2
         \<and> IfCache app2 = sortInterfaceStats X ifaces (field (sortBy app1 ! 0)) (asc (sortBy app1 ! 0))
         \<and> length (shown 0 app2) = RowsPerIface * length (IfCache app2)
         \<and> (\<forall>i < length (IfCache app2).
               shown 0 app2 ! (RowsPerIface * i + 1) ! 5 = ''0'' \<and>
               shown 0 app2 ! (RowsPerIface * i + 1) ! 7 = ''0'' \<and>
               shown 0 app2 ! (RowsPerIface * i + 3) ! 5 = ''0'' \<and>
               shown 0 app2 ! (RowsPerIface * i + 3) ! 7 = ''0''))"
proof -
  let ?sorted = "sortInterfaceStats X ifaces (field (sortBy app1 ! 0)) (asc (sortBy app1 ! 0))"
  let ?rows = "concat (map (iface_rows (EmptyCell X) [] (nameToIdx_loop [] 0 Map.empty)) ?sorted)"
  let ?app2 = "app1\<lparr>IfCache := ?sorted, gui := (gui app1)[0 := ?rows],
                    logged := logged app1\<rparr>"
  have cleared: "IfCache (onClear Interfaces A0 app) = []"
    by (simp add: onClear_IfCache)
  have empty: "IfCache app1 = []"
    using assms(3) assms(2) cleared by (rule perform_all_IfCache)
  have len: "length (gui app1) = 5"
    using perform_all_gui_length [OF assms(2)] assms(1) by (simp add: onClear_def)
  have tick: "tick X A app1 = Some ?app2"
    using assms(4,5,6) empty by (simp add: tick_Interfaces formatInterfaces_eq)
  have shown: "shown 0 ?app2 = ?rows"
    using len by (simp add: shown_def)
  have "length (shown 0 ?app2) = RowsPerIface * length (IfCache ?app2)"
    unfolding shown by (simp add: length_concat_blocks iface_rows_length)
  moreover have "\<forall>i < length (IfCache ?app2).
               shown 0 ?app2 ! (RowsPerIface * i + 1) ! 5 = ''0'' \<and>
               shown 0 ?app2 ! (RowsPerIface * i + 1) ! 7 = ''0'' \<and>
               shown 0 ?app2 ! (RowsPerIface * i + 3) ! 5 = ''0'' \<and>
               shown 0 ?app2 ! (RowsPerIface * i + 3) ! 7 = ''0''"
    unfolding shown using rows_without_cache [of _ ?sorted "EmptyCell X"] by simp
  moreover have "IfCache ?app2 = ?sorted" by simp
  ultimately show ?thesis
    using cleared empty tick by blast
qed

text \<open>
  The cache holds \<open>eth0\<close> at 1000 received bytes. The user clears the interface counters
  (the command fails), sorts, looks at the nodes tab for one tick and comes back; the
  next interface poll finds \<open>eth0\<close> at 1500 bytes and shows the rate 0.
\<close>

theorem onClear_then_rates_zero_witness:
  "\<exists>app1 app2.
     perform_all sample_extern
       [Sort \<lparr>CurrTab = 0, CurrRow = 3\<rparr>, TabSwitch 1, Tick (answering []), TabSwitch 0]
       (onClear Interfaces failing ((NewApp (- 1))\<lparr>IfCache := [eth0]\<rparr>)) = Some app1
     \<and> tick sample_extern (answering [sample_interface 1 ''eth0'' 1500 15 [] ''up'']) app1
         = Some app2
     \<and> IfCache app2 = [sample_interface 1 ''eth0'' 1500 15 [] ''up'']
     \<and> shown 0 app2 ! 3 ! 5 = ''0''"
proof -
  let ?app = "(NewApp (- 1))\<lparr>IfCache := [eth0]\<rparr>"
  let ?acts = "[Sort \<lparr>CurrTab = 0, CurrRow = 3\<rparr>, TabSwitch 1, Tick (answering []), TabSwitch 0]
                 :: string action list"
  let ?polled = "[sample_interface 1 ''eth0'' 1500 15 [] ''up'']"
  let ?app1 = "the (perform_all sample_extern ?acts (onClear Interfaces failing ?app))"
  have run': "perform_all sample_extern ?acts (onClear Interfaces failing ?app)
      = Some ((NewApp (- 1))\<lparr>IfCache := [],
           sortBy := (sortBy (NewApp (- 1)))[0 := \<lparr>asc = False, field = 3\<rparr>], currTab := 0,
           gui := (gui (NewApp (- 1)))[1 := []],
           logged := [''error occured while clearing interface stats: request failed: timeout''
                        @ [CHR 0x0A]]\<rparr>)"
    by (simp add: onClear_def onSort_def onTabSwitch_def tick_def ViewAtTab_Update_def NewApp_def Interfaces_def
        Nodes_def failing_def answering_def sample_extern_def keep_order_def format_nil)
  have gui: "length (gui ?app) = 5"
    by (simp add: NewApp_def)
  have run: "perform_all sample_extern ?acts (onClear Interfaces failing ?app) = Some ?app1"
    unfolding run' by simp
  have quiet: "no_interface_poll sample_extern ?acts (onClear Interfaces failing ?app)"
    by (simp add: onClear_def onSort_def onTabSwitch_def tick_def ViewAtTab_Update_def NewApp_def Interfaces_def
        Nodes_def failing_def answering_def sample_extern_def keep_order_def format_nil)
  have tab: "currTab ?app1 = Interfaces"
    unfolding run' by (simp add: Interfaces_def)
  have ans: "GetInterfaces_result (answering ?polled) = Inr ?polled"
    by (simp add: answering_def)
  have sorted: "sortInterfaceStats sample_extern ?polled (field (sortBy ?app1 ! 0))
      (asc (sortBy ?app1 ! 0)) = ?polled"
    by (simp add: sample_extern_def keep_order_def)
  have mtu: "\<forall>x \<in> set (sortInterfaceStats sample_extern ?polled (field (sortBy ?app1 ! 0))
      (asc (sortBy ?app1 ! 0))). 4 \<le> length (MTU x)"
    unfolding sorted by (simp add: sample_interface_def ext_sel)
  show ?thesis
    using onClear_then_rates_zero [OF gui run quiet tab ans mtu]
  proof (elim exE conjE, goal_cases)
    case (1 app2)
    have "(0::nat) < length (IfCache app2)"
      using 1(4) sorted by simp
    from 1(6) [rule_format, OF this] have "shown 0 app2 ! 3 ! 5 = ''0''"
      by simp
    with 1(3) 1(4) sorted run show ?case
      by auto
  qed
qed

end
